theory Spec2Isabelle
  imports Complex_Main "HOL-Library.Multiset"
begin

section \<open>JavaScript numbers and arrays\<close>

text \<open>
  JavaScript numbers are modelled by real numbers: every quantity the draft code
  handles is an integer or a quotient of small integers. \<open>Math.round\<close> rounds half up,
  \<open>Math.floor\<close> is the floor, and \<open>%\<close> is the remainder of the division truncated
  towards zero. An array read outside the array gives \<open>undefined\<close>, modelled by \<open>None\<close>.
\<close>

definition Math_round :: "real \<Rightarrow> int" where
  "Math_round x = \<lfloor>x + 1 / 2\<rfloor>"

definition js_trunc :: "real \<Rightarrow> int" where
  "js_trunc x = (if 0 \<le> x then \<lfloor>x\<rfloor> else \<lceil>x\<rceil>)"

definition js_rem :: "real \<Rightarrow> real \<Rightarrow> real" where
  "js_rem a b = a - b * of_int (js_trunc (a / b))"

definition js_index :: "'a list \<Rightarrow> int \<Rightarrow> 'a option" where
  "js_index xs i = (if 0 \<le> i \<and> i < int (length xs) then Some (xs ! nat i) else None)"

text \<open>
  \<open>TypeError\<close> is what a property read on \<open>undefined\<close> throws. \<open>OutOfDraws\<close> is not an
  error of the program: a loop that draws random numbers until it is satisfied is given a
  finite list of draws, and \<open>OutOfDraws\<close> says that the list ended before the loop did.
\<close>

datatype js_error = TypeError | OutOfDraws

section \<open>Rookie salary scale: \<open>getRookieSalaries\<close>\<close>

definition rookieSalaries_default :: "real list" where
  "rookieSalaries_default =
     [5000, 4500, 4000, 3500, 3000, 2750, 2500, 2250, 2000, 1900, 1800, 1700, 1600, 1500,
      1400, 1300, 1200, 1100, 1000, 1000, 1000, 1000, 1000, 1000, 1000, 1000, 1000, 1000,
      1000, 1000, 500, 500, 500, 500, 500, 500, 500, 500, 500, 500, 500, 500, 500, 500, 500,
      500, 500, 500, 500, 500, 500, 500, 500, 500, 500, 500, 500, 500, 500, 500]"

text \<open>\<^verbatim>\<open>while (g.numTeams * 2 > rookieSalaries.length) rookieSalaries.push(500)\<close>\<close>

function push_min_contracts :: "nat \<Rightarrow> real list \<Rightarrow> real list" where
  "push_min_contracts numTeams rookieSalaries =
     (if numTeams * 2 > length rookieSalaries
      then push_min_contracts numTeams (rookieSalaries @ [500])
      else rookieSalaries)"
  by pat_completeness auto
termination
  by (relation "measure (\<lambda>(numTeams, rookieSalaries). numTeams * 2 - length rookieSalaries)") auto

declare push_min_contracts.simps [simp del]

text \<open>\<^verbatim>\<open>while (g.numTeams * 2 < rookieSalaries.length) rookieSalaries.pop()\<close>\<close>

function pop_smallest :: "nat \<Rightarrow> real list \<Rightarrow> real list" where
  "pop_smallest numTeams rookieSalaries =
     (if numTeams * 2 < length rookieSalaries
      then pop_smallest numTeams (butlast rookieSalaries)
      else rookieSalaries)"
  by pat_completeness auto
termination
  by (relation "measure (\<lambda>(numTeams, rookieSalaries). length rookieSalaries)") auto

declare pop_smallest.simps [simp del]

text \<open>The body of the rescaling loop, for one entry of the table.\<close>

definition rescale_salary :: "real \<Rightarrow> real \<Rightarrow> real \<Rightarrow> real" where
  "rescale_salary minContract maxContract s =
     of_int (Math_round (((s - 500) * ((0.25 * maxContract - minContract) / 4500)
        + minContract) / 10)) * 10"

definition getRookieSalaries :: "nat \<Rightarrow> real \<Rightarrow> real \<Rightarrow> real list" where
  "getRookieSalaries numTeams minContract maxContract =
     (let rookieSalaries = pop_smallest numTeams
            (push_min_contracts numTeams rookieSalaries_default)
      in if minContract \<noteq> 500 \<or> maxContract \<noteq> 20000
         then map (rescale_salary minContract maxContract) rookieSalaries
         else rookieSalaries)"

section \<open>Season schedule: \<open>setSchedule\<close>\<close>

record schedule_row =
  day :: nat
  homeTid :: int
  awayTid :: int

text \<open>
  The loop of \<open>setSchedule\<close> over the matchups, with its three variables \<open>dayTids\<close>,
  \<open>day\<close> and \<open>prevDayAllStarGame\<close>; the result is the list of rows added to the
  schedule store, in order.
\<close>

fun setSchedule_loop :: "int set \<Rightarrow> nat \<Rightarrow> bool \<Rightarrow> (int \<times> int) list \<Rightarrow> schedule_row list" where
  "setSchedule_loop dayTids curDay prevDayAllStarGame [] = []"
| "setSchedule_loop dayTids curDay prevDayAllStarGame ((home, away) # tids) =
     (let allStarGame = (away = - 2 \<and> home = - 1);
          newDay = (home \<in> dayTids \<or> away \<in> dayTids \<or> allStarGame \<or> prevDayAllStarGame);
          curDay' = (if newDay then curDay + 1 else curDay);
          dayTids' = (if newDay then {} else dayTids)
      in \<lparr>day = curDay', homeTid = home, awayTid = away\<rparr>
         # setSchedule_loop (insert away (insert home dayTids')) curDay' allStarGame tids)"

text \<open>
  The store is cleared first, so the rows it held before do not matter. The games pushed to
  the user interface afterwards are read back through \<open>getUpcoming\<close> and do not change the
  schedule.
\<close>

definition setSchedule :: "schedule_row list \<Rightarrow> (int \<times> int) list \<Rightarrow> schedule_row list" where
  "setSchedule schedule tids = setSchedule_loop {} 1 False tids"

section \<open>Draft picks, draft order and the fantasy draft order\<close>

text \<open>
  Every object of the draft code that carries a \<open>tid\<close> extends \<open>owned\<close>; draft picks,
  draft order entries and a player's draft record share \<open>originalTid\<close> and \<open>round\<close> (written \<open>round'\<close>).
\<close>

record owned =
  tid :: int

record pick_core = owned +
  originalTid :: int
  round' :: int

record draftPick = pick_core +
  season :: int
  dpid :: int

record draftOrderEntry = pick_core +
  pick :: int

text \<open>
  \<open>random.shuffle\<close> is not part of the sources at hand: \<open>shuffle k xs\<close> stands for the
  array left by the \<open>k\<close>-th call of \<open>random.shuffle\<close> of a run on the array \<open>xs\<close>, and
  nothing is assumed of it.
\<close>

text \<open>
  \<^verbatim>\<open>while (tids[position - 1] !== g.userTid && i < 1000) { random.shuffle(tids); i += 1; }\<close>
\<close>

function fantasy_retry ::
  "(nat \<Rightarrow> int list \<Rightarrow> int list) \<Rightarrow> int \<Rightarrow> int \<Rightarrow> nat \<Rightarrow> int list \<Rightarrow> int list \<times> nat" where
  "fantasy_retry shuffle position userTid i tids =
     (if js_index tids (position - 1) \<noteq> Some userTid \<and> i < 1000
      then fantasy_retry shuffle position userTid (i + 1) (shuffle (i + 1) tids)
      else (tids, i))"
  by pat_completeness auto
termination
  by (relation "measure (\<lambda>(shuffle, position, userTid, i, tids). 1000 - i)") auto

declare fantasy_retry.simps [simp del]

text \<open>One round of the snake: \<open>tids[i]\<close> picks \<open>i + 1\<close>-th.\<close>

definition fantasy_round :: "int \<Rightarrow> int list \<Rightarrow> draftOrderEntry list" where
  "fantasy_round rnd tids =
     map (\<lambda>i. \<lparr>tid = tids ! i, originalTid = tids ! i, round' = rnd, pick = int i + 1\<rparr>)
       [0..<length tids]"

text \<open>\<^verbatim>\<open>for (let round = 1; round <= 12; round++) { ...; tids.reverse(); }\<close>\<close>

function fantasy_rounds :: "int \<Rightarrow> int list \<Rightarrow> draftOrderEntry list" where
  "fantasy_rounds rnd tids =
     (if rnd \<le> 12 then fantasy_round rnd tids @ fantasy_rounds (rnd + 1) (rev tids) else [])"
  by pat_completeness auto
termination
  by (relation "measure (\<lambda>(rnd, tids). nat (13 - rnd))") auto

declare fantasy_rounds.simps [simp del]

text \<open>
  \<open>genOrderFantasy\<close> returns the draft order it puts into the store, together with the
  final value of its retry counter \<open>i\<close> (0 when no position is asked for). A \<open>position\<close>
  that is \<open>undefined\<close> is \<open>None\<close>.
\<close>

definition genOrderFantasy ::
  "(nat \<Rightarrow> int list \<Rightarrow> int list) \<Rightarrow> nat \<Rightarrow> int \<Rightarrow> int option \<Rightarrow> draftOrderEntry list \<times> nat" where
  "genOrderFantasy shuffle numTeams userTid position =
     (let tids = shuffle 0 (map int [0..<numTeams]);
          (tids', i) =
            (case position of
               None \<Rightarrow> (tids, 0)
             | Some p \<Rightarrow>
                 if p \<ge> 1 \<and> p \<le> int numTeams then fantasy_retry shuffle p userTid 0 tids
                 else (tids, 0))
      in (fantasy_rounds 1 tids', i))"

section \<open>Draft progression: \<open>selectPlayer\<close> and \<open>untilUserOrEnd\<close>\<close>

record rating =
  pot :: real
  ovr :: real
  skills :: "string list"

text \<open>
  A player's draft record holds the pick, the year and the \<open>pot\<close>, \<open>ovr\<close> and \<open>skills\<close> of
  the player's first ratings row, kept together here as \<open>rated\<close>.
\<close>

record draft_info = draftOrderEntry +
  year :: int
  rated :: rating

record contract =
  amount :: "real option"
  exp' :: int

record player = owned +
  pid :: int
  p_value :: real
  ratings :: "rating list"
  draft :: "draft_info option"
  contract :: "contract option"

text \<open>
  The league: the game attributes \<open>g\<close> the draft reads, the rows of the \<open>players\<close> and
  \<open>draftPicks\<close> stores and the \<open>draftOrder\<close> array of the row with \<open>rid\<close> 0 of the \<open>draftOrder\<close> store (\<open>None\<close> when
  the row is absent). A phase that is \<open>null\<close> is \<open>None\<close>.
\<close>

record league =
  g_numTeams :: nat
  g_season :: int
  g_phase :: "int option"
  g_nextPhase :: "int option"
  g_userTids :: "int list"
  g_autoPlaySeasons :: real
  g_minContract :: real
  g_maxContract :: real
  draftPicks :: "draftPick list"
  players :: "player list"
  draftOrder :: "draftOrderEntry list option"

text \<open>
  What the draft code imports from modules that are not among the sources at hand, taken
  as parameters: the constants \<open>PHASE.FANTASY_DRAFT\<close>, \<open>PHASE.PLAYOFFS\<close>, \<open>PHASE.AFTER_DRAFT\<close>,
  \<open>PLAYER.UNDRAFTED\<close>, \<open>PLAYER.UNDRAFTED_FANTASY_TEMP\<close>, and the functions
  \<open>player.setContract\<close>, \<open>player.addStatsRow\<close>, \<open>player.addToFreeAgents\<close> (with the base
  moods and the free agency phase it is called with) and \<open>phase.newPhase\<close>.
\<close>

record ext =
  FANTASY_DRAFT :: int
  PLAYOFFS :: int
  AFTER_DRAFT :: int
  UNDRAFTED :: int
  UNDRAFTED_FANTASY_TEMP :: int
  setContract :: "player \<Rightarrow> contract \<Rightarrow> bool \<Rightarrow> player"
  addStatsRow :: "player \<Rightarrow> bool \<Rightarrow> player"
  addToFreeAgents :: "player \<Rightarrow> player"
  newPhase :: "int \<Rightarrow> league \<Rightarrow> league"

text \<open>
  \<open>Array.prototype.sort\<close> with a comparator, as a stable insertion sort: \<open>x\<close> goes before
  the first element it does not compare greater than. A comparator result that is \<open>NaN\<close>
  counts as 0, which the comparators below return in its place.
\<close>

fun js_insert :: "('a \<Rightarrow> 'a \<Rightarrow> real) \<Rightarrow> 'a \<Rightarrow> 'a list \<Rightarrow> 'a list" where
  "js_insert cmp x [] = [x]"
| "js_insert cmp x (y # ys) = (if cmp x y \<le> 0 then x # y # ys else y # js_insert cmp x ys)"

definition js_sort :: "('a \<Rightarrow> 'a \<Rightarrow> real) \<Rightarrow> 'a list \<Rightarrow> 'a list" where
  "js_sort cmp xs = foldr (js_insert cmp) xs []"

text \<open>\<open>idb.cache.get('players', pid)\<close>, and the write of the changed object.\<close>

definition get_player :: "player list \<Rightarrow> int \<Rightarrow> player option" where
  "get_player ps k = find (\<lambda>p. pid p = k) ps"

definition put_player :: "int \<Rightarrow> player \<Rightarrow> player list \<Rightarrow> player list" where
  "put_player k p' ps = map (\<lambda>q. if pid q = k then p' else q) ps"

text \<open>\<open>g.nextPhase <= PHASE.PLAYOFFS\<close>: \<open>null\<close> compares as 0.\<close>

definition nextPhase_le :: "int option \<Rightarrow> int \<Rightarrow> bool" where
  "nextPhase_le np ph = (case np of None \<Rightarrow> 0 \<le> ph | Some n \<Rightarrow> n \<le> ph)"

text \<open>
  \<open>selectPlayer\<close>. A missing player makes \<open>p.tid = pick.tid\<close> throw, a player without
  ratings makes \<open>p.ratings[0].pot\<close> throw. A salary index outside the table gives the
  amount \<open>undefined\<close>. The news feed entry written at the end is not modelled.
\<close>

definition selectPlayer :: "ext \<Rightarrow> league \<Rightarrow> draftOrderEntry \<Rightarrow> int \<Rightarrow> js_error + league" where
  "selectPlayer x lg pk k =
     (case get_player (players lg) k of
        None \<Rightarrow> Inl TypeError
      | Some p \<Rightarrow>
          (let p1 = p\<lparr>tid := tid pk\<rparr> in
           if g_phase lg \<noteq> Some (FANTASY_DRAFT x) then
             (case ratings p1 of
                [] \<Rightarrow> Inl TypeError
              | r0 # _ \<Rightarrow>
                  (let p2 = p1\<lparr>draft := Some \<lparr>tid = tid pk, originalTid = originalTid pk,
                              round' = round' pk, pick = pick pk,
                              year = g_season lg, rated = r0\<rparr>\<rparr>;
                       rookieSalaries =
                         getRookieSalaries (g_numTeams lg) (g_minContract lg) (g_maxContract lg);
                       i = pick pk - 1 + int (g_numTeams lg) * (round' pk - 1);
                       years = 4 - round' pk;
                       p3 = setContract x p2
                              \<lparr>amount = js_index rookieSalaries i, exp' = g_season lg + years\<rparr> True
                   in Inr (lg\<lparr>players := put_player k p3 (players lg)\<rparr>)))
           else
             (let p2 = (if nextPhase_le (g_nextPhase lg) (PLAYOFFS x)
                        then addStatsRow x p1 (g_nextPhase lg = Some (PLAYOFFS x))
                        else p1)
              in Inr (lg\<lparr>players := put_player k p2 (players lg)\<rparr>))))"

text \<open>
  \<open>afterDoneAuto\<close>, called when the draft is over or it is the user's pick. The queue
  \<open>draftOrder\<close> of \<open>untilUserOrEnd\<close> is the array of the cached row, so what is left of it
  is what the store holds afterwards. The updates of the play menu and of the time of
  the last change are not modelled.
\<close>

definition afterDoneAuto ::
  "ext \<Rightarrow> league \<Rightarrow> draftOrderEntry list \<Rightarrow> int list \<Rightarrow> league \<times> int list" where
  "afterDoneAuto x lg queue pids =
     (let lg0 = lg\<lparr>draftOrder := Some queue\<rparr> in
      if length queue = 0 then
        (if g_phase lg0 = Some (FANTASY_DRAFT x) then
           (let ps1 = map (\<lambda>p. if tid p = UNDRAFTED x then addToFreeAgents x p else p) (players lg0);
                ps2 = map (\<lambda>p. if tid p = UNDRAFTED_FANTASY_TEMP x then p\<lparr>tid := UNDRAFTED x\<rparr> else p)
                        ps1
            in (lg0\<lparr>players := ps2, g_phase := g_nextPhase lg0, g_nextPhase := None\<rparr>, pids))
         else (newPhase x (AFTER_DRAFT x) lg0, pids))
      else (lg0, pids))"

text \<open>
  \<open>autoSelectPlayer\<close>, by recursion on the queue. \<open>gauss k\<close> stands for the value of the
  \<open>k\<close>-th call of \<open>random.gauss(0, 2)\<close> of the run, one call for each pick made, and
  \<open>playersAll[selection]\<close> outside the pool is \<open>undefined\<close>, whose \<open>pid\<close> throws.
\<close>

fun autoSelectPlayer ::
  "ext \<Rightarrow> (nat \<Rightarrow> real) \<Rightarrow> league \<Rightarrow> player list \<Rightarrow> int list \<Rightarrow> draftOrderEntry list
     \<Rightarrow> js_error + league \<times> int list" where
  "autoSelectPlayer x gauss lg playersAll pids [] = Inr (afterDoneAuto x lg [] pids)"
| "autoSelectPlayer x gauss lg playersAll pids (pk # queue) =
     (if tid pk \<in> set (g_userTids lg) \<and> g_autoPlaySeasons lg = 0
      then Inr (afterDoneAuto x lg (pk # queue) pids)
      else
        (let selection = \<lfloor>\<bar>gauss (length pids)\<bar>\<rfloor> in
         case js_index playersAll selection of
           None \<Rightarrow> Inl TypeError
         | Some p \<Rightarrow>
             (case selectPlayer x lg pk (pid p) of
                Inl e \<Rightarrow> Inl e
              | Inr lg' \<Rightarrow>
                  autoSelectPlayer x gauss lg'
                    (take (nat selection) playersAll @ drop (Suc (nat selection)) playersAll)
                    (pids @ [pid p]) queue)))"

text \<open>
  \<open>untilUserOrEnd\<close>: the undrafted players, best first, and the stored draft order; a
  missing draft order row makes \<open>getOrder\<close> throw.
\<close>

definition untilUserOrEnd :: "ext \<Rightarrow> (nat \<Rightarrow> real) \<Rightarrow> league \<Rightarrow> js_error + league \<times> int list" where
  "untilUserOrEnd x gauss lg =
     (case draftOrder lg of
        None \<Rightarrow> Inl TypeError
      | Some queue \<Rightarrow>
          autoSelectPlayer x gauss lg
            (js_sort (\<lambda>a b. p_value b - p_value a) (filter (\<lambda>p. tid p = UNDRAFTED x) (players lg)))
            [] queue)"

section \<open>Draft lottery and draft order: \<open>updateChances\<close>, \<open>lotterySort\<close>, \<open>genOrder\<close>\<close>

text \<open>
  A team as \<open>getCopy.teams\<close> returns it for the season, with the \<open>randVal\<close> that
  \<open>lotterySort\<close> adds (\<open>None\<close> while it is \<open>undefined\<close>).
\<close>

record team = owned +
  cid :: int
  winp :: real
  playoffRoundsWon :: int
  randVal :: "int option"

subsection \<open>\<open>updateChances\<close>\<close>

text \<open>
  \<open>_.countBy(teams, t => t.seasonAttrs.winp)\<close> followed by \<open>_.pairs\<close>: one pair for each
  win percentage that occurs, with the number of teams that have it. \<open>_.sortBy\<close> then orders
  the pairs by the win percentage.
\<close>

definition countBy_winp :: "team list \<Rightarrow> (real \<times> nat) list" where
  "countBy_winp teams =
     (let ws = map winp teams in map (\<lambda>w. (w, count_list ws w)) (remdups ws))"

text \<open>
  The inner loop \<^verbatim>\<open>for (i = tc, j = tc + val; i < j; i++)\<close>, with \<open>n = j - i\<close> rounds to go.
  It only runs with \<open>tc + val \<le> chances.length\<close>, so that every write is inside the array.
\<close>

fun assign_group :: "real \<Rightarrow> nat \<Rightarrow> nat \<Rightarrow> real \<Rightarrow> real list \<Rightarrow> real list" where
  "assign_group newVal 0 i remainder chances = chances"
| "assign_group newVal (Suc n) i remainder chances =
     (if remainder > 0
      then assign_group newVal n (i + 1) (remainder - 1) (chances[i := newVal + 1])
      else assign_group newVal n (i + 1) remainder (chances[i := newVal]))"

text \<open>
  The body of the loop over the groups \<open>wps\<close>, for a group of \<open>cnt\<close> teams: it returns the
  new \<open>tc\<close> and \<open>chances\<close>. \<open>reduce\<close> without an initial value throws on an empty slice.
\<close>

definition updateChances_group :: "bool \<Rightarrow> nat \<Rightarrow> nat \<Rightarrow> real list \<Rightarrow> js_error + nat \<times> real list" where
  "updateChances_group isFinal cnt tc chances =
     (if cnt > 1 then
        (let val = (if tc + cnt \<ge> length chances then cnt - (tc + cnt - length chances) else cnt)
         in case take val (drop tc chances) of
              [] \<Rightarrow> Inl TypeError
            | c # cs \<Rightarrow>
                (let total = foldl (+) c cs;
                     remainder = (if isFinal then js_rem total (real val) else 0);
                     newVal = (total - remainder) / real val
                 in Inr (tc + val, assign_group newVal val tc remainder chances)))
      else Inr (tc + cnt, chances))"

text \<open>The loop, which ends early once \<open>tc\<close> has reached the length of \<open>chances\<close>.\<close>

fun updateChances_loop :: "bool \<Rightarrow> (real \<times> nat) list \<Rightarrow> nat \<Rightarrow> real list \<Rightarrow> js_error + real list" where
  "updateChances_loop isFinal [] tc chances = Inr chances"
| "updateChances_loop isFinal (wp # wps) tc chances =
     (case updateChances_group isFinal (snd wp) tc chances of
        Inl e \<Rightarrow> Inl e
      | Inr (tc', chances') \<Rightarrow>
          if tc' \<ge> length chances' then Inr chances'
          else updateChances_loop isFinal wps tc' chances')"

definition updateChances :: "real list \<Rightarrow> team list \<Rightarrow> bool \<Rightarrow> js_error + real list" where
  "updateChances chances teams isFinal =
     updateChances_loop isFinal (sort_key fst (countBy_winp teams)) 0 chances"

subsection \<open>\<open>lotterySort\<close>\<close>

text \<open>
  The comparator of \<open>lotterySort\<close>. \<open>a.randVal - b.randVal\<close> is \<open>NaN\<close> when one of them is
  \<open>undefined\<close>, which the sort reads as 0.
\<close>

definition randVal_diff :: "team \<Rightarrow> team \<Rightarrow> real" where
  "randVal_diff a b =
     (case (randVal a, randVal b) of (Some u, Some v) \<Rightarrow> real_of_int (u - v) | _ \<Rightarrow> 0)"

definition lottery_cmp :: "team \<Rightarrow> team \<Rightarrow> real" where
  "lottery_cmp a b =
     (let r = 0;
          r = (if playoffRoundsWon a \<ge> 0 \<and> \<not> playoffRoundsWon b \<ge> 0 then 1 else r);
          r = (if \<not> playoffRoundsWon a \<ge> 0 \<and> playoffRoundsWon b \<ge> 0 then - 1 else r);
          r = (if r = 0 then winp a - winp b else r);
          r = (if r = 0 then randVal_diff a b else r)
      in r)"

text \<open>
  \<open>shuffle\<close> stands for the one call of \<open>random.shuffle\<close>; \<open>teams[i].randVal\<close> is
  \<open>randValues[i]\<close>, \<open>undefined\<close> beyond \<open>g.numTeams\<close>.
\<close>

definition lotterySort :: "(int list \<Rightarrow> int list) \<Rightarrow> nat \<Rightarrow> team list \<Rightarrow> team list" where
  "lotterySort shuffle numTeams teams =
     (let randValues = shuffle (map int [0..<numTeams]);
          teams' = map (\<lambda>(i, t). t\<lparr>randVal := js_index randValues (int i)\<rparr>) (enumerate 0 teams)
      in js_sort lottery_cmp teams')"

subsection \<open>\<open>genOrder\<close>\<close>

definition lottery_chances :: "real list" where
  "lottery_chances = [250, 199, 156, 119, 88, 63, 43, 28, 17, 11, 8, 7, 6, 5]"

text \<open>\<^verbatim>\<open>for (let i = 1; i < chances.length; i++) chances[i] += chances[i - 1]\<close>\<close>

fun cumsum_loop :: "nat \<Rightarrow> nat \<Rightarrow> real list \<Rightarrow> real list" where
  "cumsum_loop 0 i chances = chances"
| "cumsum_loop (Suc n) i chances =
     cumsum_loop n (i + 1) (chances[i := chances ! i + chances ! (i - 1)])"

definition cumsum :: "real list \<Rightarrow> real list" where
  "cumsum chances = cumsum_loop (length chances - 1) 1 chances"

text \<open>\<open>findIndex\<close>, with \<open>None\<close> for the result \<open>-1\<close>.\<close>

fun findIndex_from :: "nat \<Rightarrow> ('a \<Rightarrow> bool) \<Rightarrow> 'a list \<Rightarrow> nat option" where
  "findIndex_from i P [] = None"
| "findIndex_from i P (x # xs) = (if P x then Some i else findIndex_from (i + 1) P xs)"

text \<open>
  The loop that draws the first three picks, one round for each draw of
  \<open>random.randInt(0, 999)\<close>. An index \<open>-1\<close> is never among \<open>firstThree\<close>, and neither for it
  nor for an index beyond the teams is there a team whose \<open>randVal\<close> could be lowered:
  \<open>teams[i].randVal\<close> throws.
\<close>

fun draw_firstThree ::
  "real list \<Rightarrow> int list \<Rightarrow> team list \<Rightarrow> nat list \<Rightarrow> js_error + team list \<times> nat list" where
  "draw_firstThree chances [] teams firstThree =
     (if length firstThree < 3 then Inl OutOfDraws else Inr (teams, firstThree))"
| "draw_firstThree chances (draw # draws) teams firstThree =
     (if length firstThree < 3 then
        (case findIndex_from 0 (\<lambda>chance. chance > real_of_int draw) chances of
           None \<Rightarrow> Inl TypeError
         | Some i \<Rightarrow>
             if i \<notin> set firstThree then
               (if i < length teams
                then draw_firstThree chances draws
                       (teams[i := (teams ! i)\<lparr>randVal := map_option (\<lambda>v. v - 30) (randVal (teams ! i))\<rparr>])
                       (firstThree @ [i])
                else Inl TypeError)
             else draw_firstThree chances draws teams firstThree)
      else Inr (teams, firstThree))"

text \<open>
  The \<open>draftPicks\<close> store. \<open>add\<close> gives the new row the next free \<open>dpid\<close>, \<open>indexGetAll\<close> by
  season returns the rows of that season, \<open>delete\<close> removes the row with the given \<open>dpid\<close>.
\<close>

definition add_draftPick :: "draftPick list \<Rightarrow> int \<Rightarrow> int \<Rightarrow> int \<Rightarrow> draftPick list" where
  "add_draftPick rows t r s =
     rows @ [\<lparr>tid = t, originalTid = t, round' = r, season = s,
               dpid = foldr max (map dpid rows) (- 1) + 1\<rparr>]"

definition genPicks :: "nat \<Rightarrow> int \<Rightarrow> draftPick list \<Rightarrow> draftPick list" where
  "genPicks numTeams s rows =
     foldl (\<lambda>rows (t, r). add_draftPick rows t r s) rows
       (concat (map (\<lambda>t. [(int t, 1), (int t, 2)]) [0..<numTeams]))"

definition draftPicksBySeason :: "draftPick list \<Rightarrow> int \<Rightarrow> draftPick list" where
  "draftPicksBySeason rows s = filter (\<lambda>dp. season dp = s) rows"

definition delete_draftPicks :: "draftPick list \<Rightarrow> draftPick list \<Rightarrow> draftPick list" where
  "delete_draftPicks rows dps = foldl (\<lambda>rows dp. filter (\<lambda>q. dpid q \<noteq> dpid dp) rows) rows dps"

text \<open>
  \<open>draftPicksIndexed\<close>: the owner of the pick of \<open>originalTid\<close> in \<open>round\<close>; a later pick
  overwrites an earlier one with the same two.
\<close>

definition draftPicksIndexed :: "draftPick list \<Rightarrow> (int \<times> int \<rightharpoonup> int)" where
  "draftPicksIndexed dps = foldl (\<lambda>m dp. m((originalTid dp, round' dp) \<mapsto> tid dp)) Map.empty dps"

text \<open>
  One entry of the draft order; \<open>draftPicksIndexed[t.tid][round].tid\<close> throws when the pick
  is missing.
\<close>

definition order_entry :: "(int \<times> int \<rightharpoonup> int) \<Rightarrow> int \<Rightarrow> team \<Rightarrow> int \<Rightarrow> js_error + draftOrderEntry" where
  "order_entry indexed rnd t pk =
     (case indexed (tid t, rnd) of
        None \<Rightarrow> Inl TypeError
      | Some owner \<Rightarrow> Inr \<lparr>tid = owner, originalTid = tid t, round' = rnd, pick = pk\<rparr>)"

text \<open>The entries of a loop, up to the first one that throws.\<close>

fun collect :: "(js_error + 'a) list \<Rightarrow> js_error + 'a list" where
  "collect [] = Inr []"
| "collect (Inl e # rs) = Inl e"
| "collect (Inr x # rs) = (case collect rs of Inl e \<Rightarrow> Inl e | Inr xs \<Rightarrow> Inr (x # xs))"

text \<open>
  \<open>logLotteryChances\<close> reads the round 1 pick of each of the first teams, as many as there
  are chances, and throws when one is missing; the news feed entries themselves, and those
  of \<open>logLotteryWinners\<close>, are not modelled.
\<close>

definition logLotteryChances :: "real list \<Rightarrow> team list \<Rightarrow> (int \<times> int \<rightharpoonup> int) \<Rightarrow> js_error + unit" where
  "logLotteryChances chancePct teams indexed =
     (case collect (map (\<lambda>(c, t). order_entry indexed 1 t 0) (zip chancePct teams)) of
        Inl e \<Rightarrow> Inl e
      | Inr _ \<Rightarrow> Inr ())"

text \<open>The comparator of the sort for the second round: \<open>winp\<close>, then \<open>randVal\<close> reversed.\<close>

definition round2_cmp :: "team \<Rightarrow> team \<Rightarrow> real" where
  "round2_cmp a b =
     (let r = winp a - winp b in if r = 0 then randVal_diff b a else r)"

text \<open>
  What a run of \<open>genOrder\<close> leaves: the league with its stores, and the values of the local
  variables \<open>chancePct\<close> and \<open>firstThree\<close>.
\<close>

record genOrder_run =
  run_league :: league
  run_chancePct :: "real list"
  run_firstThree :: "nat list"

text \<open>
  \<open>genOrder\<close>, for the teams that \<open>getCopy.teams\<close> returns, the shuffle of \<open>lotterySort\<close> and
  the draws of the lottery.
\<close>

definition genOrder ::
  "(int list \<Rightarrow> int list) \<Rightarrow> int list \<Rightarrow> team list \<Rightarrow> league \<Rightarrow> js_error + genOrder_run" where
  "genOrder shuffle draws teams0 lg =
     (let teams = lotterySort shuffle (g_numTeams lg) teams0 in
      case updateChances lottery_chances teams True of
        Inl e \<Rightarrow> Inl e
      | Inr chances \<Rightarrow>
      (let chanceTotal = sum_list chances;
           chancePct = map (\<lambda>c. (c / chanceTotal) * 100) chances
       in
       case draw_firstThree (cumsum chances) draws teams [] of
         Inl e \<Rightarrow> Inl e
       | Inr (teams, firstThree) \<Rightarrow>
       (let rows = (if length (draftPicksBySeason (draftPicks lg) (g_season lg)) = 0
                    then genPicks (g_numTeams lg) (g_season lg) (draftPicks lg)
                    else draftPicks lg);
            dps = draftPicksBySeason rows (g_season lg);
            indexed = draftPicksIndexed dps
        in
        case logLotteryChances chancePct teams indexed of
          Inl e \<Rightarrow> Inl e
        | Inr _ \<Rightarrow>
        (case collect (map (\<lambda>(k, i). order_entry indexed 1 (teams ! i) (int k + 1))
                        (enumerate 0 firstThree)) of
           Inl e \<Rightarrow> Inl e
         | Inr winners \<Rightarrow>
         (case collect (map (\<lambda>(k, t). order_entry indexed 1 t (int k + 4))
                         (enumerate 0 (map snd (filter (\<lambda>(i, t). i \<notin> set firstThree)
                                                  (enumerate 0 teams))))) of
            Inl e \<Rightarrow> Inl e
          | Inr others \<Rightarrow>
          (case collect (map (\<lambda>(k, t). order_entry indexed 2 t (int k + 1))
                          (enumerate 0 (js_sort round2_cmp teams))) of
             Inl e \<Rightarrow> Inl e
           | Inr second \<Rightarrow>
               Inr \<lparr>run_league =
                      lg\<lparr>draftPicks := delete_draftPicks rows dps,
                         draftOrder := Some (winners @ others @ second)\<rparr>,
                    run_chancePct = chancePct,
                    run_firstThree = firstThree\<rparr>))))))"

section \<open>Properties of the rookie salary scale\<close>

lemma push_min_contracts_eq:
  "push_min_contracts numTeams xs = xs @ replicate (numTeams * 2 - length xs) 500"
proof (induction numTeams xs rule: push_min_contracts.induct)
  case (1 numTeams xs)
  show ?case
  proof (cases "numTeams * 2 > length xs")
    case True
    then have "numTeams * 2 - length xs = Suc (numTeams * 2 - length (xs @ [500]))"
      by simp
    with True 1 show ?thesis
      by (subst push_min_contracts.simps) (simp add: replicate_app_Cons_same)
  next
    case False
    then show ?thesis by (subst push_min_contracts.simps) simp
  qed
qed

lemma pop_smallest_eq: "pop_smallest numTeams xs = take (numTeams * 2) xs"
proof (induction numTeams xs rule: pop_smallest.induct)
  case (1 numTeams xs)
  show ?case
  proof (cases "numTeams * 2 < length xs")
    case True
    with 1 show ?thesis
      by (subst pop_smallest.simps) (simp add: butlast_conv_take)
  next
    case False
    then show ?thesis by (subst pop_smallest.simps) simp
  qed
qed

lemma length_rookieSalaries_default: "length rookieSalaries_default = 60"
  by (simp add: rookieSalaries_default_def)

lemma resize_eq:
  "pop_smallest numTeams (push_min_contracts numTeams rookieSalaries_default) =
     take (2 * numTeams) rookieSalaries_default @ replicate (2 * numTeams - 60) 500"
  by (simp add: pop_smallest_eq push_min_contracts_eq length_rookieSalaries_default mult.commute)









text \<open>
  Claim C10. For every number of teams, \<open>getRookieSalaries\<close> returns a table of exactly
  \<open>2 * numTeams\<close> entries: the two length loops turn the 60-entry default table into its
  first \<open>2 * numTeams\<close> entries (entries are removed from the end, the smallest salaries)
  followed by \<open>2 * numTeams - 60\<close> appended minimum salaries of 500, and the rescaling for
  a non-default minimum or maximum contract is applied to that resized table afterwards.
\<close>

lemma length_getRookieSalaries:
  "length (getRookieSalaries numTeams minContract maxContract) = 2 * numTeams"
  by (auto simp: getRookieSalaries_def resize_eq Let_def length_rookieSalaries_default)

theorem getRookieSalaries_length:
  "length (getRookieSalaries numTeams minContract maxContract) = 2 * numTeams
   \<and> pop_smallest numTeams (push_min_contracts numTeams rookieSalaries_default)
       = take (2 * numTeams) rookieSalaries_default @ replicate (2 * numTeams - 60) 500
   \<and> getRookieSalaries numTeams minContract maxContract
       = (if minContract \<noteq> 500 \<or> maxContract \<noteq> 20000
          then map (rescale_salary minContract maxContract) else id)
           (take (2 * numTeams) rookieSalaries_default @ replicate (2 * numTeams - 60) 500)"
  using length_getRookieSalaries [of numTeams minContract maxContract]
  by (simp add: getRookieSalaries_def resize_eq)

theorem getRookieSalaries_length_witness:
  "getRookieSalaries 2 500 20000 = [5000, 4500, 4000, 3500]
   \<and> length (getRookieSalaries 31 500 20000) = 62
   \<and> drop 59 (getRookieSalaries 31 500 20000) = [500, 500, 500]
   \<and> take 3 (getRookieSalaries 31 500 20000) = [5000, 4500, 4000]"
  using getRookieSalaries_length [of 2 500 20000] getRookieSalaries_length [of 31 500 20000]
  by (simp add: rookieSalaries_default_def numeral_2_eq_2)




section \<open>Properties of the schedule\<close>

lemma length_setSchedule_loop: "length (setSchedule_loop T d p tids) = length tids"
  by (induction tids arbitrary: T d p) (auto simp: Let_def)

lemma setSchedule_loop_Cons:
  "\<exists>d' T'.
     setSchedule_loop T d p ((h, a) # tids)
       = \<lparr>day = d', homeTid = h, awayTid = a\<rparr> # setSchedule_loop T' d' (a = - 2 \<and> h = - 1) tids
     \<and> d \<le> d'
     \<and> ((a = - 2 \<and> h = - 1) \<or> p \<longrightarrow> d' = d + 1)
     \<and> (d' = d \<longrightarrow> h \<notin> T \<and> a \<notin> T \<and> T' = insert a (insert h T))
     \<and> h \<in> T' \<and> a \<in> T'"
proof -
  let ?new = "h \<in> T \<or> a \<in> T \<or> (a = - 2 \<and> h = - 1) \<or> p"
  let ?d' = "if ?new then d + 1 else d"
  let ?T' = "insert a (insert h (if ?new then {} else T))"
  have "setSchedule_loop T d p ((h, a) # tids)
       = \<lparr>day = ?d', homeTid = h, awayTid = a\<rparr> # setSchedule_loop ?T' ?d' (a = - 2 \<and> h = - 1) tids"
    by (simp add: Let_def)
  moreover have "d \<le> ?d'" "(a = - 2 \<and> h = - 1) \<or> p \<longrightarrow> ?d' = d + 1"
    "?d' = d \<longrightarrow> h \<notin> T \<and> a \<notin> T \<and> ?T' = insert a (insert h T)" "h \<in> ?T'" "a \<in> ?T'"
    by auto
  ultimately show ?thesis by blast
qed

lemma setSchedule_loop_day_ge:
  "r \<in> set (setSchedule_loop T d p tids) \<Longrightarrow> d \<le> day r"
proof (induction tids arbitrary: T d p)
  case Nil
  then show ?case by simp
next
  case (Cons x tids)
  obtain h a where x: "x = (h, a)" by (cases x)
  obtain d' T' where rows: "setSchedule_loop T d p ((h, a) # tids)
       = \<lparr>day = d', homeTid = h, awayTid = a\<rparr> # setSchedule_loop T' d' (a = - 2 \<and> h = - 1) tids"
    and le: "d \<le> d'"
    using setSchedule_loop_Cons [of T d p h a tids] by blast
  from Cons.prems have "r = \<lparr>day = d', homeTid = h, awayTid = a\<rparr>
      \<or> r \<in> set (setSchedule_loop T' d' (a = - 2 \<and> h = - 1) tids)"
    unfolding x rows by simp
  then show ?case
  proof
    assume "r = \<lparr>day = d', homeTid = h, awayTid = a\<rparr>"
    with le show ?thesis by simp
  next
    assume "r \<in> set (setSchedule_loop T' d' (a = - 2 \<and> h = - 1) tids)"
    then have "d' \<le> day r" by (rule Cons.IH)
    with le show ?thesis by simp
  qed
qed

lemma setSchedule_loop_sorted: "sorted (map day (setSchedule_loop T d p tids))"
proof (induction tids arbitrary: T d p)
  case Nil
  then show ?case by simp
next
  case (Cons x tids)
  obtain h a where x: "x = (h, a)" by (cases x)
  obtain d' T' where rows: "setSchedule_loop T d p ((h, a) # tids)
       = \<lparr>day = d', homeTid = h, awayTid = a\<rparr> # setSchedule_loop T' d' (a = - 2 \<and> h = - 1) tids"
    using setSchedule_loop_Cons [of T d p h a tids] by blast
  show ?case
    unfolding x rows using Cons.IH [of T' d'] setSchedule_loop_day_ge [of _ T' d']
    by auto
qed

lemma setSchedule_loop_prev_allstar:
  assumes "p" and "tids \<noteq> []"
  shows "day (setSchedule_loop T d p tids ! 0) = d + 1"
proof -
  from assms(2) obtain h a rest where tids: "tids = (h, a) # rest"
    by (cases tids) auto
  obtain d' T' where "setSchedule_loop T d p ((h, a) # rest)
       = \<lparr>day = d', homeTid = h, awayTid = a\<rparr> # setSchedule_loop T' d' (a = - 2 \<and> h = - 1) rest"
    and "(a = - 2 \<and> h = - 1) \<or> p \<Longrightarrow> d' = d + 1"
    using setSchedule_loop_Cons [of T d p h a rest] by blast
  with assms(1) show ?thesis unfolding tids by simp
qed

lemma setSchedule_loop_prev_allstar_all:
  assumes "p" and "r \<in> set (setSchedule_loop T d p tids)"
  shows "d < day r"
proof (cases tids)
  case Nil
  with assms show ?thesis by simp
next
  case (Cons x rest)
  obtain h a where x: "x = (h, a)" by (cases x)
  obtain d' T' where rows: "setSchedule_loop T d p ((h, a) # rest)
       = \<lparr>day = d', homeTid = h, awayTid = a\<rparr> # setSchedule_loop T' d' (a = - 2 \<and> h = - 1) rest"
    and d': "(a = - 2 \<and> h = - 1) \<or> p \<Longrightarrow> d' = d + 1"
    using setSchedule_loop_Cons [of T d p h a rest] by blast
  from assms(2) have "r = \<lparr>day = d', homeTid = h, awayTid = a\<rparr>
      \<or> r \<in> set (setSchedule_loop T' d' (a = - 2 \<and> h = - 1) rest)"
    unfolding Cons x rows by simp
  then have "d' \<le> day r"
    by (auto dest: setSchedule_loop_day_ge)
  with d' assms(1) show ?thesis by simp
qed

lemma setSchedule_loop_allstar_gt:
  "k < length tids \<Longrightarrow> tids ! k = (- 1, - 2) \<Longrightarrow> d < day (setSchedule_loop T d p tids ! k)"
proof (induction tids arbitrary: T d p k)
  case Nil
  then show ?case by simp
next
  case (Cons x tids)
  obtain h a where x: "x = (h, a)" by (cases x)
  obtain d' T' where rows: "setSchedule_loop T d p ((h, a) # tids)
       = \<lparr>day = d', homeTid = h, awayTid = a\<rparr> # setSchedule_loop T' d' (a = - 2 \<and> h = - 1) tids"
    and le: "d \<le> d'"
    and d': "(a = - 2 \<and> h = - 1) \<or> p \<Longrightarrow> d' = d + 1"
    using setSchedule_loop_Cons [of T d p h a tids] by blast
  show ?case
  proof (cases k)
    case 0
    with Cons.prems d' show ?thesis unfolding x rows by simp
  next
    case (Suc k')
    with Cons.prems have "k' < length tids" "tids ! k' = (- 1, - 2)" by simp_all
    from Cons.IH [OF this] have "d' < day (setSchedule_loop T' d' (a = - 2 \<and> h = - 1) tids ! k')" .
    with le show ?thesis
      unfolding x rows Suc by simp
  qed
qed

lemma setSchedule_loop_allstar_alone:
  "i < length tids \<Longrightarrow> tids ! i = (- 1, - 2) \<Longrightarrow> j < length tids \<Longrightarrow> j \<noteq> i \<Longrightarrow>
     day (setSchedule_loop T d p tids ! j) \<noteq> day (setSchedule_loop T d p tids ! i)"
proof (induction tids arbitrary: T d p i j)
  case Nil
  then show ?case by simp
next
  case (Cons x tids)
  obtain h a where x: "x = (h, a)" by (cases x)
  obtain d' T' where rows: "setSchedule_loop T d p ((h, a) # tids)
       = \<lparr>day = d', homeTid = h, awayTid = a\<rparr> # setSchedule_loop T' d' (a = - 2 \<and> h = - 1) tids"
    using setSchedule_loop_Cons [of T d p h a tids] by blast
  let ?rest = "setSchedule_loop T' d' (a = - 2 \<and> h = - 1) tids"
  show ?case
  proof (cases i)
    case 0
    with Cons.prems obtain j' where j: "j = Suc j'" "j' < length tids"
      by (cases j) auto
    from 0 Cons.prems have star: "a = - 2 \<and> h = - 1" by (simp add: x)
    have "?rest ! j' \<in> set ?rest" using j by (simp add: length_setSchedule_loop)
    with star have "d' < day (?rest ! j')"
      by (intro setSchedule_loop_prev_allstar_all) simp_all
    then show ?thesis unfolding x rows 0 j by simp
  next
    case (Suc i')
    with Cons.prems have i': "i' < length tids" "tids ! i' = (- 1, - 2)" by simp_all
    show ?thesis
    proof (cases j)
      case 0
      from setSchedule_loop_allstar_gt [OF i'] have "d' < day (?rest ! i')" .
      then show ?thesis unfolding x rows 0 Suc by simp
    next
      case (Suc j')
      with Cons.prems \<open>i = Suc i'\<close> have "j' < length tids" "j' \<noteq> i'" by simp_all
      from Cons.IH [OF i' this] show ?thesis unfolding x rows Suc \<open>i = Suc i'\<close> by simp
    qed
  qed
qed

lemma setSchedule_loop_after_allstar:
  "Suc i < length tids \<Longrightarrow> tids ! i = (- 1, - 2) \<Longrightarrow>
     day (setSchedule_loop T d p tids ! Suc i) = day (setSchedule_loop T d p tids ! i) + 1"
proof (induction tids arbitrary: T d p i)
  case Nil
  then show ?case by simp
next
  case (Cons x tids)
  obtain h a where x: "x = (h, a)" by (cases x)
  obtain d' T' where rows: "setSchedule_loop T d p ((h, a) # tids)
       = \<lparr>day = d', homeTid = h, awayTid = a\<rparr> # setSchedule_loop T' d' (a = - 2 \<and> h = - 1) tids"
    using setSchedule_loop_Cons [of T d p h a tids] by blast
  let ?rest = "setSchedule_loop T' d' (a = - 2 \<and> h = - 1) tids"
  show ?case
  proof (cases i)
    case 0
    with Cons.prems have star: "a = - 2 \<and> h = - 1" and ne: "tids \<noteq> []" by (auto simp: x)
    from star ne have "day (?rest ! 0) = d' + 1"
      by (intro setSchedule_loop_prev_allstar) simp_all
    then show ?thesis unfolding x rows 0 by simp
  next
    case (Suc i')
    with Cons.prems have "Suc i' < length tids" "tids ! i' = (- 1, - 2)" by simp_all
    from Cons.IH [OF this] show ?thesis unfolding x rows Suc by simp
  qed
qed

lemma setSchedule_loop_distinct:
  assumes "\<forall>(h, a) \<in> set tids. h \<noteq> a"
  shows "distinct (concat (map (\<lambda>r. [homeTid r, awayTid r])
            (filter (\<lambda>r. day r = e) (setSchedule_loop T d p tids))))
         \<and> (\<forall>r \<in> set (setSchedule_loop T d p tids).
              day r = d \<longrightarrow> homeTid r \<notin> T \<and> awayTid r \<notin> T)"
  using assms
proof (induction tids arbitrary: T d p)
  case Nil
  then show ?case by simp
next
  case (Cons x tids)
  obtain h a where x: "x = (h, a)" by (cases x)
  obtain d' T' where rows: "setSchedule_loop T d p ((h, a) # tids)
       = \<lparr>day = d', homeTid = h, awayTid = a\<rparr> # setSchedule_loop T' d' (a = - 2 \<and> h = - 1) tids"
    and le: "d \<le> d'"
    and same: "d' = d \<Longrightarrow> h \<notin> T \<and> a \<notin> T \<and> T' = insert a (insert h T)"
    and inT: "h \<in> T'" "a \<in> T'"
    using setSchedule_loop_Cons [of T d p h a tids] by blast
  let ?rest = "setSchedule_loop T' d' (a = - 2 \<and> h = - 1) tids"
  let ?ids = "\<lambda>rows. concat (map (\<lambda>r. [homeTid r, awayTid r]) (filter (\<lambda>r. day r = e) rows))"
  from Cons.prems have ha: "h \<noteq> a" and tl: "\<forall>(h, a) \<in> set tids. h \<noteq> a"
    by (simp_all add: x)
  note IH = Cons.IH [OF tl, of T' d' "a = - 2 \<and> h = - 1"]
  have ge: "d' \<le> day r" if "r \<in> set ?rest" for r
    using that by (rule setSchedule_loop_day_ge)
  have fresh: "homeTid r \<notin> T' \<and> awayTid r \<notin> T'" if "r \<in> set ?rest" "day r = d'" for r
    using IH that by blast
  have 1: "distinct (?ids (setSchedule_loop T d p (x # tids)))"
  proof (cases "e = d'")
    case True
    have "h \<notin> set (?ids ?rest)" "a \<notin> set (?ids ?rest)"
      using fresh inT True by auto
    with IH ha True show ?thesis unfolding x rows by simp
  next
    case False
    with IH show ?thesis unfolding x rows by simp
  qed
  have 2: "\<forall>r \<in> set (setSchedule_loop T d p (x # tids)).
      day r = d \<longrightarrow> homeTid r \<notin> T \<and> awayTid r \<notin> T"
  proof (cases "d' = d")
    case True
    from same [OF True] have hT: "h \<notin> T" "a \<notin> T" and T': "T' = insert a (insert h T)"
      by simp_all
    have "homeTid r \<notin> T \<and> awayTid r \<notin> T" if "r \<in> set ?rest" "day r = d" for r
      using fresh [of r] that True T' by auto
    with hT show ?thesis unfolding x rows by auto
  next
    case False
    with le have "d < d'" by simp
    then have "r \<in> set ?rest \<Longrightarrow> day r \<noteq> d" for r
      using ge [of r] by auto
    with False show ?thesis unfolding x rows by auto
  qed
  from 1 2 show ?case by blast
qed

text \<open>
  Claim C4 (as amended). The rows of the schedule are the matchups, in order. If no matchup
  pairs a team with itself, no team id (the all-star ids included) appears twice among the
  matchups of one day. A matchup \<open>(-1, -2)\<close>, the all-star game, is the only matchup of its
  day. The matchup after it starts a new day: every matchup up to the all-star game has a
  smaller day; matchups after it may share its day.
\<close>

theorem setSchedule_days:
  "map (\<lambda>r. (homeTid r, awayTid r)) (setSchedule old tids) = tids
   \<and> ((\<forall>(h, a) \<in> set tids. h \<noteq> a) \<longrightarrow>
        (\<forall>e. distinct (concat (map (\<lambda>r. [homeTid r, awayTid r])
                (filter (\<lambda>r. day r = e) (setSchedule old tids))))))
   \<and> (\<forall>i j. i < length tids \<and> tids ! i = (- 1, - 2) \<and> j < length tids \<and> j \<noteq> i \<longrightarrow>
        day (setSchedule old tids ! j) \<noteq> day (setSchedule old tids ! i))
   \<and> (\<forall>i j. Suc i < length tids \<and> tids ! i = (- 1, - 2) \<and> j \<le> i \<longrightarrow>
        day (setSchedule old tids ! j) < day (setSchedule old tids ! Suc i))"
proof -
  let ?rows = "setSchedule_loop {} 1 False tids"
  have pairs: "map (\<lambda>r. (homeTid r, awayTid r)) (setSchedule_loop T d p tids) = tids" for T d p
    by (induction tids arbitrary: T d p) (auto simp: Let_def)
  have after: "day (?rows ! j) < day (?rows ! Suc i)"
    if "Suc i < length tids" "tids ! i = (- 1, - 2)" "j \<le> i" for i j
  proof -
    have "sorted (map day ?rows)" by (rule setSchedule_loop_sorted)
    moreover have "i < length (map day ?rows)" using that(1) by (simp add: length_setSchedule_loop)
    ultimately have "map day ?rows ! j \<le> map day ?rows ! i"
      using that(3) by (simp only: sorted_nth_mono)
    then have "day (?rows ! j) \<le> day (?rows ! i)"
      using that by (simp add: length_setSchedule_loop)
    with setSchedule_loop_after_allstar [OF that(1,2), of "{}" 1 False] show ?thesis by simp
  qed
  show ?thesis
    unfolding setSchedule_def
    using pairs setSchedule_loop_distinct [of tids _ "{}" 1 False]
      setSchedule_loop_allstar_alone [of _ tids _ "{}" 1 False] after
    by blast
qed

theorem setSchedule_days_witness:
  "map day (setSchedule [] [(0, 1), (2, 3), (0, 2), (- 1, - 2), (4, 5), (6, 7)]) = [1, 1, 2, 3, 4, 4]
   \<and> distinct (concat (map (\<lambda>r. [homeTid r, awayTid r])
        (filter (\<lambda>r. day r = 1)
          (setSchedule [] [(0, 1), (2, 3), (0, 2), (- 1, - 2), (4, 5), (6, 7)]))))
   \<and> day (setSchedule [] [(0, 1), (2, 3), (0, 2), (- 1, - 2), (4, 5), (6, 7)] ! 4)
       \<noteq> day (setSchedule [] [(0, 1), (2, 3), (0, 2), (- 1, - 2), (4, 5), (6, 7)] ! 3)
   \<and> day (setSchedule [] [(0, 1), (2, 3), (0, 2), (- 1, - 2), (4, 5), (6, 7)] ! 2)
       < day (setSchedule [] [(0, 1), (2, 3), (0, 2), (- 1, - 2), (4, 5), (6, 7)] ! Suc 3)"
proof -
  let ?tids = "[(0, 1), (2, 3), (0, 2), (- 1, - 2), (4, 5), (6, 7)] :: (int \<times> int) list"
  note inst = setSchedule_days [of "[]" ?tids]
  have hyp: "\<forall>(h, a) \<in> set ?tids. h \<noteq> a" by simp
  from inst hyp have "distinct (concat (map (\<lambda>r. [homeTid r, awayTid r])
        (filter (\<lambda>r. day r = 1) (setSchedule [] ?tids))))"
    by blast
  moreover have "3 < length ?tids \<and> ?tids ! 3 = (- 1, - 2) \<and> 4 < length ?tids \<and> (4::nat) \<noteq> 3"
    by simp
  with inst have "day (setSchedule [] ?tids ! 4) \<noteq> day (setSchedule [] ?tids ! 3)"
    by blast
  moreover have "Suc 3 < length ?tids \<and> ?tids ! 3 = (- 1, - 2) \<and> (2::nat) \<le> 3"
    by simp
  with inst have "day (setSchedule [] ?tids ! 2) < day (setSchedule [] ?tids ! Suc 3)"
    by blast
  moreover have "map day (setSchedule [] ?tids) = [1, 1, 2, 3, 4, 4]"
    by (simp add: setSchedule_def Let_def)
  ultimately show ?thesis by blast
qed

text \<open>
  The matchup after the all-star game does not have its day to itself: \<open>(0, 1)\<close>, \<open>(2, 3)\<close>
  and \<open>(4, 4)\<close> are all played on day 3; and a matchup of a team with itself puts that team
  on the day twice.
\<close>

theorem setSchedule_days_counterexample:
  "map day (setSchedule [] [(- 1, - 2), (0, 1), (2, 3), (4, 4)]) = [2, 3, 3, 3]
   \<and> \<not> distinct (concat (map (\<lambda>r. [homeTid r, awayTid r])
        (filter (\<lambda>r. day r = 3) (setSchedule [] [(- 1, - 2), (0, 1), (2, 3), (4, 4)]))))"
  by (simp add: setSchedule_def Let_def)

section \<open>Properties of the fantasy draft order\<close>

lemma fantasy_retry_bound:
  "i \<le> 1000 \<Longrightarrow>
     snd (fantasy_retry shuffle P u i tids) \<le> 1000
     \<and> i \<le> snd (fantasy_retry shuffle P u i tids)
     \<and> (js_index (fst (fantasy_retry shuffle P u i tids)) (P - 1) = Some u
          \<or> snd (fantasy_retry shuffle P u i tids) = 1000)
     \<and> fst (fantasy_retry shuffle P u i tids)
          = foldl (\<lambda>xs k. shuffle (Suc k) xs) tids [i..<snd (fantasy_retry shuffle P u i tids)]"
proof (induction shuffle P u i tids rule: fantasy_retry.induct)
  case (1 shuffle P u i tids)
  show ?case
  proof (cases "js_index tids (P - 1) \<noteq> Some u \<and> i < 1000")
    case True
    let ?r = "fantasy_retry shuffle P u (i + 1) (shuffle (i + 1) tids)"
    from True have eq: "fantasy_retry shuffle P u i tids = ?r"
      by (subst fantasy_retry.simps) simp
    from True have "i + 1 \<le> 1000" by simp
    note IH = "1.IH" [OF True this]
    from IH have a: "snd ?r \<le> 1000" by (rule conjunct1)
    from IH have b: "i + 1 \<le> snd ?r" by (rule conjunct2 [THEN conjunct1])
    from IH have c: "js_index (fst ?r) (P - 1) = Some u \<or> snd ?r = 1000"
      by (rule conjunct2 [THEN conjunct2, THEN conjunct1])
    from IH have d: "fst ?r = foldl (\<lambda>xs k. shuffle (Suc k) xs) (shuffle (i + 1) tids) [i + 1..<snd ?r]"
      by (rule conjunct2 [THEN conjunct2, THEN conjunct2])
    from b have b': "i \<le> snd ?r" by simp
    from b have "[i..<snd ?r] = i # [i + 1..<snd ?r]"
      by (simp add: upt_conv_Cons)
    with d have d': "fst ?r = foldl (\<lambda>xs k. shuffle (Suc k) xs) tids [i..<snd ?r]"
      by simp
    from a b' c d' show ?thesis unfolding eq by blast
  next
    case False
    then have eq: "fantasy_retry shuffle P u i tids = (tids, i)"
      by (subst fantasy_retry.simps) auto
    from False "1.prems" show ?thesis unfolding eq by auto
  qed
qed

lemma fantasy_retry_never:
  "js_index tids (P - 1) \<noteq> Some u \<Longrightarrow> i \<le> 1000 \<Longrightarrow>
     fantasy_retry (\<lambda>k xs. xs) P u i tids = (tids, 1000)"
proof (induction "1000 - i" arbitrary: i)
  case 0
  then show ?case by (subst fantasy_retry.simps) simp
next
  case (Suc n)
  then have "i < 1000" "n = 1000 - (i + 1)" "i + 1 \<le> 1000" by simp_all
  with Suc.hyps(1) [of "i + 1"] Suc.prems(1) show ?case
    by (subst fantasy_retry.simps) simp
qed

text \<open>
  Claim C9. For a requested position \<open>P\<close> with \<open>1 \<le> P \<le> numTeams\<close>, the retry loop of
  \<open>genOrderFantasy\<close> ends with a counter \<open>i \<le> 1000\<close>: the team ids are the array left by the
  first shuffle and \<open>i\<close> further shuffles; either the user's team stands at position \<open>P\<close> or
  the budget of 1000 is used up, and in both cases the draft order is built from that array.
  \<open>fantasy_retry\<close>, \<open>fantasy_rounds\<close> and \<open>genOrderFantasy\<close> are total functions (the
  termination proofs above), so the routine returns for every shuffle.
\<close>

theorem genOrderFantasy_bounded:
  "1 \<le> P \<and> P \<le> int numTeams \<longrightarrow>
     (\<exists>tids i.
        fantasy_retry shuffle P userTid 0 (shuffle 0 (map int [0..<numTeams])) = (tids, i)
        \<and> i \<le> 1000
        \<and> (js_index tids (P - 1) = Some userTid \<or> i = 1000)
        \<and> tids = foldl (\<lambda>xs k. shuffle (Suc k) xs) (shuffle 0 (map int [0..<numTeams])) [0..<i]
        \<and> genOrderFantasy shuffle numTeams userTid (Some P) = (fantasy_rounds 1 tids, i))"
proof
  assume P: "1 \<le> P \<and> P \<le> int numTeams"
  let ?start = "shuffle 0 (map int [0..<numTeams])"
  obtain tids i where r: "fantasy_retry shuffle P userTid 0 ?start = (tids, i)"
    by (cases "fantasy_retry shuffle P userTid 0 ?start")
  have "i \<le> 1000 \<and> 0 \<le> i \<and> (js_index tids (P - 1) = Some userTid \<or> i = 1000)
      \<and> tids = foldl (\<lambda>xs k. shuffle (Suc k) xs) ?start [0..<i]"
    using fantasy_retry_bound [of 0 shuffle P userTid ?start]
    unfolding r fst_conv snd_conv by blast
  moreover from P r have "genOrderFantasy shuffle numTeams userTid (Some P) = (fantasy_rounds 1 tids, i)"
    by (simp add: genOrderFantasy_def)
  ultimately show "\<exists>tids i.
        fantasy_retry shuffle P userTid 0 ?start = (tids, i)
        \<and> i \<le> 1000
        \<and> (js_index tids (P - 1) = Some userTid \<or> i = 1000)
        \<and> tids = foldl (\<lambda>xs k. shuffle (Suc k) xs) ?start [0..<i]
        \<and> genOrderFantasy shuffle numTeams userTid (Some P) = (fantasy_rounds 1 tids, i)"
    using r by blast
qed

theorem genOrderFantasy_bounded_witness:
  "genOrderFantasy (\<lambda>k xs. xs) 2 0 (Some 2) = (fantasy_rounds 1 [0, 1], 1000)
   \<and> genOrderFantasy (\<lambda>k xs. rev xs) 2 1 (Some 2) = (fantasy_rounds 1 [0, 1], 1)"
proof -
  have up: "map int [0..<2] = [0, 1]" by (simp add: upt_conv_Cons)
  have P: "(1::int) \<le> 2 \<and> 2 \<le> int 2" by simp
  have "js_index [0, 1] (2 - 1) \<noteq> Some (0::int)" by (simp add: js_index_def)
  then have 1: "fantasy_retry (\<lambda>k xs. xs) 2 0 0 [0, 1] = ([0, 1], 1000)"
    by (rule fantasy_retry_never) simp
  have 2: "fantasy_retry (\<lambda>k xs. rev xs) 2 1 0 [1, 0] = ([0, 1], 1)"
    by (simp add: fantasy_retry.simps js_index_def)
  from genOrderFantasy_bounded [of 2 2 "\<lambda>k xs. xs" 0] P
  obtain tids i where "fantasy_retry (\<lambda>k xs. xs) 2 0 0 (map int [0..<2]) = (tids, i)"
    and "genOrderFantasy (\<lambda>k xs. xs) 2 0 (Some 2) = (fantasy_rounds 1 tids, i)"
    by blast
  with 1 have a: "genOrderFantasy (\<lambda>k xs. xs) 2 0 (Some 2) = (fantasy_rounds 1 [0, 1], 1000)"
    unfolding up by simp
  from genOrderFantasy_bounded [of 2 2 "\<lambda>k xs. rev xs" 1] P
  obtain tids i where "fantasy_retry (\<lambda>k xs. rev xs) 2 1 0 (rev (map int [0..<2])) = (tids, i)"
    and "genOrderFantasy (\<lambda>k xs. rev xs) 2 1 (Some 2) = (fantasy_rounds 1 tids, i)"
    by blast
  with 2 have b: "genOrderFantasy (\<lambda>k xs. rev xs) 2 1 (Some 2) = (fantasy_rounds 1 [0, 1], 1)"
    unfolding up by simp
  from a b show ?thesis by (rule conjI)
qed

section \<open>Properties of the draft progression\<close>

text \<open>
  Claim C7. Outside the fantasy draft phase \<open>selectPlayer\<close> stores the player with the
  drafting team, the draft record and the contract handed to \<open>player.setContract\<close>: it
  expires \<open>4 - round\<close> seasons after the current one and its amount is the entry of the
  rookie salary table at index \<open>pick - 1 + numTeams * (round - 1)\<close>, which is an entry of the
  table for every pick of rounds 1 and 2. In the fantasy draft phase the stored player is
  the old one with the new team, with at most a stats row added: neither the draft record nor
  a contract is written.
\<close>

theorem selectPlayer_contract:
  "(get_player (players lg) k = Some p \<and> ratings p = r0 # rs
      \<and> g_phase lg \<noteq> Some (FANTASY_DRAFT x) \<longrightarrow>
      selectPlayer x lg pk k =
        Inr (lg\<lparr>players := put_player k
          (setContract x
             (p\<lparr>tid := tid pk,
                draft := Some \<lparr>tid = tid pk, originalTid = originalTid pk, round' = round' pk,
                  pick = pick pk, year = g_season lg, rated = r0\<rparr>\<rparr>)
             \<lparr>amount = js_index
                 (getRookieSalaries (g_numTeams lg) (g_minContract lg) (g_maxContract lg))
                 (pick pk - 1 + int (g_numTeams lg) * (round' pk - 1)),
               exp' = g_season lg + (4 - round' pk)\<rparr>
             True)
          (players lg)\<rparr>))
   \<and> (1 \<le> pick pk \<and> pick pk \<le> int (g_numTeams lg) \<and> 1 \<le> round' pk \<and> round' pk \<le> 2 \<longrightarrow>
      js_index (getRookieSalaries (g_numTeams lg) (g_minContract lg) (g_maxContract lg))
          (pick pk - 1 + int (g_numTeams lg) * (round' pk - 1))
        = Some (getRookieSalaries (g_numTeams lg) (g_minContract lg) (g_maxContract lg)
            ! nat (pick pk - 1 + int (g_numTeams lg) * (round' pk - 1))))
   \<and> (get_player (players lg) k = Some p \<and> g_phase lg = Some (FANTASY_DRAFT x) \<longrightarrow>
      (\<exists>p'. selectPlayer x lg pk k = Inr (lg\<lparr>players := put_player k p' (players lg)\<rparr>)
         \<and> (p' = p\<lparr>tid := tid pk\<rparr>
             \<or> p' = addStatsRow x (p\<lparr>tid := tid pk\<rparr>) (g_nextPhase lg = Some (PLAYOFFS x)))))"
proof -
  have idx: "js_index (getRookieSalaries n mn mx) (pc - 1 + int n * (rd - 1))
      = Some (getRookieSalaries n mn mx ! nat (pc - 1 + int n * (rd - 1)))"
    if "1 \<le> pc" "pc \<le> int n" "1 \<le> rd" "rd \<le> 2" for n mn mx pc rd
  proof -
    from that(3,4) have "rd = 1 \<or> rd = 2" by auto
    then have "0 \<le> pc - 1 + int n * (rd - 1) \<and> pc - 1 + int n * (rd - 1) < int (2 * n)"
      using that(1,2) by auto
    then show ?thesis
      unfolding js_index_def length_getRookieSalaries by simp
  qed
  show ?thesis
    by (auto simp: selectPlayer_def Let_def idx)
qed

lemma getRookieSalaries_30: "getRookieSalaries 30 500 20000 = rookieSalaries_default"
  by (simp add: getRookieSalaries_def resize_eq length_rookieSalaries_default)

theorem selectPlayer_contract_witness:
  "map_sum id (\<lambda>lg. map (\<lambda>p. (pid p, tid p, contract p, map_option year (draft p))) (players lg))
     (selectPlayer
        \<lparr>FANTASY_DRAFT = - 1, PLAYOFFS = 3, AFTER_DRAFT = 6, UNDRAFTED = - 2,
          UNDRAFTED_FANTASY_TEMP = - 6, setContract = (\<lambda>p c s. p\<lparr>contract := Some c\<rparr>),
          addStatsRow = (\<lambda>p b. p), addToFreeAgents = (\<lambda>p. p\<lparr>tid := - 1\<rparr>),
          newPhase = (\<lambda>ph lg. lg\<lparr>g_phase := Some ph\<rparr>)\<rparr>
        \<lparr>g_numTeams = 30, g_season = 2017, g_phase = Some 5, g_nextPhase = None,
          g_userTids = [0], g_autoPlaySeasons = 0, g_minContract = 500, g_maxContract = 20000,
          draftPicks = [], players = [\<lparr>tid = - 2, pid = 7, p_value = 60,
                       ratings = [\<lparr>pot = 70, ovr = 50, skills = []\<rparr>],
                       draft = None, contract = None\<rparr>],
          draftOrder = Some []\<rparr>
        \<lparr>tid = 3, originalTid = 4, round' = 2, pick = 2\<rparr> 7)
     = Inr [(7, 3, Some \<lparr>amount = Some 500, exp' = 2019\<rparr>, Some 2017)]
   \<and> map_sum id (\<lambda>lg. map (\<lambda>p. (pid p, tid p, contract p, map_option year (draft p))) (players lg))
     (selectPlayer
        \<lparr>FANTASY_DRAFT = - 1, PLAYOFFS = 3, AFTER_DRAFT = 6, UNDRAFTED = - 2,
          UNDRAFTED_FANTASY_TEMP = - 6, setContract = (\<lambda>p c s. p\<lparr>contract := Some c\<rparr>),
          addStatsRow = (\<lambda>p b. p), addToFreeAgents = (\<lambda>p. p\<lparr>tid := - 1\<rparr>),
          newPhase = (\<lambda>ph lg. lg\<lparr>g_phase := Some ph\<rparr>)\<rparr>
        \<lparr>g_numTeams = 30, g_season = 2017, g_phase = Some (- 1), g_nextPhase = Some 1,
          g_userTids = [0], g_autoPlaySeasons = 0, g_minContract = 500, g_maxContract = 20000,
          draftPicks = [], players = [\<lparr>tid = - 2, pid = 7, p_value = 60,
                       ratings = [\<lparr>pot = 70, ovr = 50, skills = []\<rparr>],
                       draft = None, contract = None\<rparr>],
          draftOrder = Some []\<rparr>
        \<lparr>tid = 3, originalTid = 4, round' = 2, pick = 2\<rparr> 7)
     = Inr [(7, 3, None, None)]"
proof -
  let ?x = "\<lparr>FANTASY_DRAFT = - 1, PLAYOFFS = 3, AFTER_DRAFT = 6, UNDRAFTED = - 2,
          UNDRAFTED_FANTASY_TEMP = - 6, setContract = (\<lambda>p c s. p\<lparr>contract := Some c\<rparr>),
          addStatsRow = (\<lambda>p b. p), addToFreeAgents = (\<lambda>p. p\<lparr>tid := - 1\<rparr>),
          newPhase = (\<lambda>ph lg. lg\<lparr>g_phase := Some ph\<rparr>)\<rparr>"
  let ?p = "\<lparr>tid = - 2, pid = 7, p_value = 60,
                       ratings = [\<lparr>pot = 70, ovr = 50, skills = []\<rparr>],
                       draft = None, contract = None\<rparr>"
  let ?lg = "\<lambda>ph np. \<lparr>g_numTeams = 30, g_season = 2017, g_phase = ph, g_nextPhase = np,
          g_userTids = [0], g_autoPlaySeasons = 0, g_minContract = 500, g_maxContract = 20000,
          draftPicks = [], players = [?p], draftOrder = Some []\<rparr>"
  let ?pk = "\<lparr>tid = 3, originalTid = 4, round' = 2, pick = 2\<rparr>"
  have tab: "js_index rookieSalaries_default 31 = Some 500"
    by (simp add: js_index_def rookieSalaries_default_def)
  note a = selectPlayer_contract [of "?lg (Some 5) None" 7 ?p "\<lparr>pot = 70, ovr = 50, skills = []\<rparr>" "[]" ?x ?pk]
  note b = selectPlayer_contract [of "?lg (Some (- 1)) (Some 1)" 7 ?p "\<lparr>pot = 70, ovr = 50, skills = []\<rparr>" "[]" ?x ?pk]
  have 1: "map_sum id (\<lambda>lg. map (\<lambda>p. (pid p, tid p, contract p, map_option year (draft p))) (players lg))
     (selectPlayer ?x (?lg (Some 5) None) ?pk 7)
     = Inr [(7, 3, Some \<lparr>amount = Some 500, exp' = 2019\<rparr>, Some 2017)]"
    using a by (simp add: get_player_def put_player_def getRookieSalaries_30 tab)
  have 2: "map_sum id (\<lambda>lg. map (\<lambda>p. (pid p, tid p, contract p, map_option year (draft p))) (players lg))
     (selectPlayer ?x (?lg (Some (- 1)) (Some 1)) ?pk 7)
     = Inr [(7, 3, None, None)]"
    using b by (auto simp: get_player_def put_player_def)
  from 1 2 show ?thesis by (rule conjI)
qed

text \<open>
  Claim C5. When the pick at the front of the queue belongs to one of the user's teams and
  \<open>autoPlaySeasons\<close> is exactly 0, the run ends there: no player is selected for the pick,
  the picks made so far are returned, and the pick is still at the front of the stored
  queue. When that pick is the first one of the run, the league is left as it was.
\<close>

theorem untilUserOrEnd_pause:
  "tid pk \<in> set (g_userTids lg) \<and> g_autoPlaySeasons lg = 0 \<longrightarrow>
     autoSelectPlayer x gauss lg playersAll pids (pk # queue)
       = Inr (lg\<lparr>draftOrder := Some (pk # queue)\<rparr>, pids)
     \<and> (draftOrder lg = Some (pk # queue) \<longrightarrow> untilUserOrEnd x gauss lg = Inr (lg, []))"
  by (auto simp: afterDoneAuto_def untilUserOrEnd_def)

text \<open>
  Claim C6 (as amended). The index \<open>floor(|gauss(0, 2)|)\<close> is used as drawn. For an automatic
  pick, if it is below the size of the pool of undrafted players, the player at that index
  is drafted and removed from the pool; if it is not, \<open>playersAll[selection]\<close> is missing and
  the pick ends in a \<open>TypeError\<close>. Nothing clamps the index.
\<close>

theorem untilUserOrEnd_selection:
  "\<not> (tid pk \<in> set (g_userTids lg) \<and> g_autoPlaySeasons lg = 0) \<longrightarrow>
     (\<lfloor>\<bar>gauss (length pids)\<bar>\<rfloor> < int (length playersAll) \<longrightarrow>
        autoSelectPlayer x gauss lg playersAll pids (pk # queue)
          = (case selectPlayer x lg pk (pid (playersAll ! nat \<lfloor>\<bar>gauss (length pids)\<bar>\<rfloor>)) of
               Inl e \<Rightarrow> Inl e
             | Inr lg' \<Rightarrow>
                 autoSelectPlayer x gauss lg'
                   (take (nat \<lfloor>\<bar>gauss (length pids)\<bar>\<rfloor>) playersAll
                      @ drop (Suc (nat \<lfloor>\<bar>gauss (length pids)\<bar>\<rfloor>)) playersAll)
                   (pids @ [pid (playersAll ! nat \<lfloor>\<bar>gauss (length pids)\<bar>\<rfloor>)]) queue))
     \<and> (int (length playersAll) \<le> \<lfloor>\<bar>gauss (length pids)\<bar>\<rfloor> \<longrightarrow>
        autoSelectPlayer x gauss lg playersAll pids (pk # queue) = Inl TypeError)"
proof -
  have "0 \<le> \<lfloor>\<bar>gauss (length pids)\<bar>\<rfloor>" by simp
  then show ?thesis
    by (auto simp: js_index_def Let_def)
qed


theorem untilUserOrEnd_pause_witness:
  "untilUserOrEnd
     \<lparr>FANTASY_DRAFT = - 1, PLAYOFFS = 3, AFTER_DRAFT = 6, UNDRAFTED = - 2,
          UNDRAFTED_FANTASY_TEMP = - 6, setContract = (\<lambda>p c s. p\<lparr>contract := Some c\<rparr>),
          addStatsRow = (\<lambda>p b. p), addToFreeAgents = (\<lambda>p. p\<lparr>tid := - 1\<rparr>),
          newPhase = (\<lambda>ph lg. lg\<lparr>g_phase := Some ph\<rparr>)\<rparr>
     (\<lambda>k. 0)
     \<lparr>g_numTeams = 30, g_season = 2017, g_phase = Some 5, g_nextPhase = None,
          g_userTids = [0], g_autoPlaySeasons = 0, g_minContract = 500, g_maxContract = 20000,
          draftPicks = [], players = [\<lparr>tid = - 2, pid = 7, p_value = 60,
                       ratings = [\<lparr>pot = 70, ovr = 50, skills = []\<rparr>],
                       draft = None, contract = None\<rparr>],
          draftOrder = Some [\<lparr>tid = 0, originalTid = 0, round' = 1, pick = 1\<rparr>, \<lparr>tid = 3, originalTid = 3, round' = 1, pick = 2\<rparr>]\<rparr>
   = Inr (\<lparr>g_numTeams = 30, g_season = 2017, g_phase = Some 5, g_nextPhase = None,
          g_userTids = [0], g_autoPlaySeasons = 0, g_minContract = 500, g_maxContract = 20000,
          draftPicks = [], players = [\<lparr>tid = - 2, pid = 7, p_value = 60,
                       ratings = [\<lparr>pot = 70, ovr = 50, skills = []\<rparr>],
                       draft = None, contract = None\<rparr>],
          draftOrder = Some [\<lparr>tid = 0, originalTid = 0, round' = 1, pick = 1\<rparr>, \<lparr>tid = 3, originalTid = 3, round' = 1, pick = 2\<rparr>]\<rparr>, [])
   \<and> map_sum id (\<lambda>(lg, pids). (draftOrder lg, pids))
       (untilUserOrEnd
         \<lparr>FANTASY_DRAFT = - 1, PLAYOFFS = 3, AFTER_DRAFT = 6, UNDRAFTED = - 2,
          UNDRAFTED_FANTASY_TEMP = - 6, setContract = (\<lambda>p c s. p\<lparr>contract := Some c\<rparr>),
          addStatsRow = (\<lambda>p b. p), addToFreeAgents = (\<lambda>p. p\<lparr>tid := - 1\<rparr>),
          newPhase = (\<lambda>ph lg. lg\<lparr>g_phase := Some ph\<rparr>)\<rparr>
         (\<lambda>k. 0)
         \<lparr>g_numTeams = 30, g_season = 2017, g_phase = Some 5, g_nextPhase = None,
          g_userTids = [0], g_autoPlaySeasons = 0, g_minContract = 500, g_maxContract = 20000,
          draftPicks = [], players = [\<lparr>tid = - 2, pid = 7, p_value = 60,
                       ratings = [\<lparr>pot = 70, ovr = 50, skills = []\<rparr>],
                       draft = None, contract = None\<rparr>],
          draftOrder = Some [\<lparr>tid = 3, originalTid = 3, round' = 1, pick = 1\<rparr>, \<lparr>tid = 0, originalTid = 0, round' = 1, pick = 2\<rparr>]\<rparr>)
     = Inr (Some [\<lparr>tid = 0, originalTid = 0, round' = 1, pick = 2\<rparr>], [7])"
proof -
  let ?x = "\<lparr>FANTASY_DRAFT = - 1, PLAYOFFS = 3, AFTER_DRAFT = 6, UNDRAFTED = - 2,
          UNDRAFTED_FANTASY_TEMP = - 6, setContract = (\<lambda>p c s. p\<lparr>contract := Some c\<rparr>),
          addStatsRow = (\<lambda>p b. p), addToFreeAgents = (\<lambda>p. p\<lparr>tid := - 1\<rparr>),
          newPhase = (\<lambda>ph lg. lg\<lparr>g_phase := Some ph\<rparr>)\<rparr>"
  let ?lg = "\<lparr>g_numTeams = 30, g_season = 2017, g_phase = Some 5, g_nextPhase = None,
          g_userTids = [0], g_autoPlaySeasons = 0, g_minContract = 500, g_maxContract = 20000,
          draftPicks = [], players = [\<lparr>tid = - 2, pid = 7, p_value = 60,
                       ratings = [\<lparr>pot = 70, ovr = 50, skills = []\<rparr>],
                       draft = None, contract = None\<rparr>],
          draftOrder = Some [\<lparr>tid = 0, originalTid = 0, round' = 1, pick = 1\<rparr>, \<lparr>tid = 3, originalTid = 3, round' = 1, pick = 2\<rparr>]\<rparr>"
  let ?lg' = "\<lparr>g_numTeams = 30, g_season = 2017, g_phase = Some 5, g_nextPhase = None,
          g_userTids = [0], g_autoPlaySeasons = 0, g_minContract = 500, g_maxContract = 20000,
          draftPicks = [], players = [\<lparr>tid = - 2, pid = 7, p_value = 60,
                       ratings = [\<lparr>pot = 70, ovr = 50, skills = []\<rparr>],
                       draft = None, contract = None\<rparr>],
          draftOrder = Some [\<lparr>tid = 3, originalTid = 3, round' = 1, pick = 1\<rparr>, \<lparr>tid = 0, originalTid = 0, round' = 1, pick = 2\<rparr>]\<rparr>"
  have "untilUserOrEnd ?x (\<lambda>k. 0) ?lg = Inr (?lg, [])"
    using untilUserOrEnd_pause [of "\<lparr>tid = 0, originalTid = 0, round' = 1, pick = 1\<rparr>" ?lg ?x "(\<lambda>k. 0)" "[]" "[]" "[\<lparr>tid = 3, originalTid = 3, round' = 1, pick = 2\<rparr>]"]
    by simp
  moreover have "map_sum id (\<lambda>(lg, pids). (draftOrder lg, pids)) (untilUserOrEnd ?x (\<lambda>k. 0) ?lg')
      = Inr (Some [\<lparr>tid = 0, originalTid = 0, round' = 1, pick = 2\<rparr>], [7])"
    by (simp add: untilUserOrEnd_def js_sort_def js_index_def selectPlayer_def get_player_def
        put_player_def afterDoneAuto_def Let_def)
  ultimately show ?thesis by (rule conjI)
qed

theorem untilUserOrEnd_selection_witness:
  "map_sum id snd
     (untilUserOrEnd
        \<lparr>FANTASY_DRAFT = - 1, PLAYOFFS = 3, AFTER_DRAFT = 6, UNDRAFTED = - 2,
          UNDRAFTED_FANTASY_TEMP = - 6, setContract = (\<lambda>p c s. p\<lparr>contract := Some c\<rparr>),
          addStatsRow = (\<lambda>p b. p), addToFreeAgents = (\<lambda>p. p\<lparr>tid := - 1\<rparr>),
          newPhase = (\<lambda>ph lg. lg\<lparr>g_phase := Some ph\<rparr>)\<rparr>
        (\<lambda>k. - 13 / 10)
        \<lparr>g_numTeams = 30, g_season = 2017, g_phase = Some 5, g_nextPhase = None,
          g_userTids = [0], g_autoPlaySeasons = 0, g_minContract = 500, g_maxContract = 20000,
          draftPicks = [], players = [\<lparr>tid = - 2, pid = 7, p_value = 40,
                       ratings = [\<lparr>pot = 70, ovr = 50, skills = []\<rparr>],
                       draft = None, contract = None\<rparr>, \<lparr>tid = - 2, pid = 8, p_value = 60,
                       ratings = [\<lparr>pot = 70, ovr = 50, skills = []\<rparr>],
                       draft = None, contract = None\<rparr>, \<lparr>tid = - 2, pid = 9, p_value = 50,
                       ratings = [\<lparr>pot = 70, ovr = 50, skills = []\<rparr>],
                       draft = None, contract = None\<rparr>],
          draftOrder = Some [\<lparr>tid = 3, originalTid = 3, round' = 1, pick = 1\<rparr>]\<rparr>)
   = Inr [9]"
proof -
  let ?x = "\<lparr>FANTASY_DRAFT = - 1, PLAYOFFS = 3, AFTER_DRAFT = 6, UNDRAFTED = - 2,
          UNDRAFTED_FANTASY_TEMP = - 6, setContract = (\<lambda>p c s. p\<lparr>contract := Some c\<rparr>),
          addStatsRow = (\<lambda>p b. p), addToFreeAgents = (\<lambda>p. p\<lparr>tid := - 1\<rparr>),
          newPhase = (\<lambda>ph lg. lg\<lparr>g_phase := Some ph\<rparr>)\<rparr>"
  let ?lg = "\<lparr>g_numTeams = 30, g_season = 2017, g_phase = Some 5, g_nextPhase = None,
          g_userTids = [0], g_autoPlaySeasons = 0, g_minContract = 500, g_maxContract = 20000,
          draftPicks = [], players = [\<lparr>tid = - 2, pid = 7, p_value = 40,
                       ratings = [\<lparr>pot = 70, ovr = 50, skills = []\<rparr>],
                       draft = None, contract = None\<rparr>, \<lparr>tid = - 2, pid = 8, p_value = 60,
                       ratings = [\<lparr>pot = 70, ovr = 50, skills = []\<rparr>],
                       draft = None, contract = None\<rparr>, \<lparr>tid = - 2, pid = 9, p_value = 50,
                       ratings = [\<lparr>pot = 70, ovr = 50, skills = []\<rparr>],
                       draft = None, contract = None\<rparr>],
          draftOrder = Some [\<lparr>tid = 3, originalTid = 3, round' = 1, pick = 1\<rparr>]\<rparr>"
  let ?pool = "[\<lparr>tid = - 2, pid = 8, p_value = 60,
                       ratings = [\<lparr>pot = 70, ovr = 50, skills = []\<rparr>],
                       draft = None, contract = None\<rparr>, \<lparr>tid = - 2, pid = 9, p_value = 50,
                       ratings = [\<lparr>pot = 70, ovr = 50, skills = []\<rparr>],
                       draft = None, contract = None\<rparr>, \<lparr>tid = - 2, pid = 7, p_value = 40,
                       ratings = [\<lparr>pot = 70, ovr = 50, skills = []\<rparr>],
                       draft = None, contract = None\<rparr>]"
  have pool: "js_sort (\<lambda>a b. p_value b - p_value a) (filter (\<lambda>p. tid p = UNDRAFTED ?x) (players ?lg))
      = ?pool"
    by (simp add: js_sort_def)
  have sel: "\<lfloor>\<bar>- 13 / 10 :: real\<bar>\<rfloor> = 1"
    by simp
  have "\<not> (tid \<lparr>tid = 3, originalTid = 3, round' = 1, pick = 1\<rparr> \<in> set (g_userTids ?lg) \<and> g_autoPlaySeasons ?lg = 0)"
    by simp
  moreover have "\<lfloor>\<bar>(\<lambda>k. - 13 / 10 :: real) (length ([] :: int list))\<bar>\<rfloor> < int (length ?pool)"
    by simp
  ultimately have "autoSelectPlayer ?x (\<lambda>k. - 13 / 10) ?lg ?pool [] [\<lparr>tid = 3, originalTid = 3, round' = 1, pick = 1\<rparr>]
      = (case selectPlayer ?x ?lg \<lparr>tid = 3, originalTid = 3, round' = 1, pick = 1\<rparr> (pid (?pool ! nat \<lfloor>\<bar>(\<lambda>k. - 13 / 10 :: real) (length ([] :: int list))\<bar>\<rfloor>)) of
               Inl e \<Rightarrow> Inl e
             | Inr lg' \<Rightarrow>
                 autoSelectPlayer ?x (\<lambda>k. - 13 / 10) lg'
                   (take (nat \<lfloor>\<bar>(\<lambda>k. - 13 / 10 :: real) (length ([] :: int list))\<bar>\<rfloor>) ?pool
                      @ drop (Suc (nat \<lfloor>\<bar>(\<lambda>k. - 13 / 10 :: real) (length ([] :: int list))\<bar>\<rfloor>)) ?pool)
                   ([] @ [pid (?pool ! nat \<lfloor>\<bar>(\<lambda>k. - 13 / 10 :: real) (length ([] :: int list))\<bar>\<rfloor>)]) [])"
    using untilUserOrEnd_selection [of "\<lparr>tid = 3, originalTid = 3, round' = 1, pick = 1\<rparr>" ?lg "(\<lambda>k. - 13 / 10)" "[]" ?pool ?x "[]"]
    by blast
  then have "map_sum id snd (autoSelectPlayer ?x (\<lambda>k. - 13 / 10) ?lg ?pool [] [\<lparr>tid = 3, originalTid = 3, round' = 1, pick = 1\<rparr>]) = Inr [9]"
    by (simp add: selectPlayer_def get_player_def put_player_def afterDoneAuto_def Let_def)
  then show ?thesis
    unfolding untilUserOrEnd_def pool by simp
qed

text \<open>
  One undrafted player, one pick of a team that is not the user's, and a draw of 2.5: the
  index is 2, outside the pool.
\<close>

theorem untilUserOrEnd_selection_counterexample:
  "\<lfloor>\<bar>5 / 2 :: real\<bar>\<rfloor> = 2
   \<and> length (filter (\<lambda>p. tid p = - 2) (players
        \<lparr>g_numTeams = 30, g_season = 2017, g_phase = Some 5, g_nextPhase = None,
          g_userTids = [0], g_autoPlaySeasons = 0, g_minContract = 500, g_maxContract = 20000,
          draftPicks = [], players = [\<lparr>tid = - 2, pid = 7, p_value = 60,
                       ratings = [\<lparr>pot = 70, ovr = 50, skills = []\<rparr>],
                       draft = None, contract = None\<rparr>],
          draftOrder = Some [\<lparr>tid = 3, originalTid = 3, round' = 1, pick = 1\<rparr>]\<rparr>)) = 1
   \<and> untilUserOrEnd
        \<lparr>FANTASY_DRAFT = - 1, PLAYOFFS = 3, AFTER_DRAFT = 6, UNDRAFTED = - 2,
          UNDRAFTED_FANTASY_TEMP = - 6, setContract = (\<lambda>p c s. p\<lparr>contract := Some c\<rparr>),
          addStatsRow = (\<lambda>p b. p), addToFreeAgents = (\<lambda>p. p\<lparr>tid := - 1\<rparr>),
          newPhase = (\<lambda>ph lg. lg\<lparr>g_phase := Some ph\<rparr>)\<rparr>
        (\<lambda>k. 5 / 2)
        \<lparr>g_numTeams = 30, g_season = 2017, g_phase = Some 5, g_nextPhase = None,
          g_userTids = [0], g_autoPlaySeasons = 0, g_minContract = 500, g_maxContract = 20000,
          draftPicks = [], players = [\<lparr>tid = - 2, pid = 7, p_value = 60,
                       ratings = [\<lparr>pot = 70, ovr = 50, skills = []\<rparr>],
                       draft = None, contract = None\<rparr>],
          draftOrder = Some [\<lparr>tid = 3, originalTid = 3, round' = 1, pick = 1\<rparr>]\<rparr>
      = Inl TypeError"
  by (simp add: untilUserOrEnd_def js_sort_def js_index_def)

section \<open>Properties of the lottery weights\<close>

lemma js_rem_nat:
  assumes "0 < k"
  shows "js_rem (real T) (real k) = real (T mod k)"
proof -
  have "js_trunc (real T / real k) = int (T div k)"
    by (simp add: js_trunc_def floor_divide_of_nat_eq)
  then have "js_rem (real T) (real k) = real T - real k * real (T div k)"
    by (simp add: js_rem_def)
  also have "\<dots> = real (T - k * (T div k))"
    by (simp add: of_nat_diff)
  also have "T - k * (T div k) = T mod k"
    by (simp add: minus_mult_div_eq_mod)
  finally show ?thesis .
qed

lemma average_nat:
  assumes "0 < k"
  shows "(real T - real (T mod k)) / real k = real (T div k)"
proof -
  have "real T = real (k * (T div k) + T mod k)" by simp
  then have "real T - real (T mod k) = real k * real (T div k)"
    by (simp only: of_nat_add of_nat_mult)
  with assms show ?thesis by simp
qed

lemma sum_list_map_real: "sum_list (map real ms) = real (sum_list ms)"
  by (induction ms) simp_all

lemma foldl_plus_sum_list: "foldl (+) (c::real) cs = c + sum_list cs"
  by (induction cs arbitrary: c) simp_all

lemma length_assign_group: "length (assign_group v n i r xs) = length xs"
  by (induction n arbitrary: i r xs) simp_all

lemma assign_group_replicate:
  "i + n \<le> length xs \<Longrightarrow>
     assign_group v n i (real r) xs
       = take i xs @ replicate (min r n) (v + 1) @ replicate (n - r) v @ drop (i + n) xs"
proof (induction n arbitrary: i r xs)
  case 0
  then show ?case by simp
next
  case (Suc n)
  from Suc.prems have i: "i < length xs" and le: "Suc i + n \<le> length xs" by simp_all
  show ?case
  proof (cases r)
    case 0
    have "assign_group v (Suc n) i (real r) xs = assign_group v n (Suc i) (real 0) (xs[i := v])"
      unfolding 0 by simp
    also have "\<dots> = take (Suc i) (xs[i := v]) @ replicate (min 0 n) (v + 1) @ replicate (n - 0) v
        @ drop (Suc i + n) (xs[i := v])"
      using le by (intro Suc.IH) simp
    also have "take (Suc i) (xs[i := v]) = take i xs @ [v]"
      using i by (simp add: take_Suc_conv_app_nth)
    finally show ?thesis
      unfolding 0 by (simp add: replicate_app_Cons_same)
  next
    case (Suc r')
    have "assign_group v (Suc n) i (real r) xs
        = assign_group v n (Suc i) (real r') (xs[i := v + 1])"
      unfolding Suc by simp
    also have "\<dots> = take (Suc i) (xs[i := v + 1]) @ replicate (min r' n) (v + 1) @ replicate (n - r') v
        @ drop (Suc i + n) (xs[i := v + 1])"
      using le by (intro Suc.IH) simp
    also have "take (Suc i) (xs[i := v + 1]) = take i xs @ [v + 1]"
      using i by (simp add: take_Suc_conv_app_nth)
    finally show ?thesis
      unfolding Suc by (simp add: replicate_app_Cons_same)
  qed
qed

text \<open>One group, on weights that are natural numbers, in the final pass.\<close>

lemma updateChances_group_final:
  assumes "1 < cnt" and "tc < length ns"
  defines "val \<equiv> min cnt (length ns - tc)"
  defines "T \<equiv> sum_list (take val (drop tc ns))"
  shows "updateChances_group True cnt tc (map real ns)
     = Inr (tc + val,
         map real (take tc ns @ replicate (T mod val) (T div val + 1)
           @ replicate (val - T mod val) (T div val) @ drop (tc + val) ns))"
proof -
  have val: "(if tc + cnt \<ge> length (map real ns) then cnt - (tc + cnt - length (map real ns)) else cnt)
      = val"
    using assms(1,2) by (auto simp: val_def min_def)
  have pos: "0 < val" using assms(1,2) by (simp add: val_def)
  have le: "tc + val \<le> length ns" using assms(2) by (simp add: val_def)
  obtain c cs where slice: "take val (drop tc (map real ns)) = c # cs"
    using pos assms(2) by (cases "take val (drop tc (map real ns))") auto
  have total: "foldl (+) c cs = real T"
  proof -
    have "foldl (+) c cs = sum_list (c # cs)" by (simp add: foldl_plus_sum_list)
    also have "\<dots> = sum_list (map real (take val (drop tc ns)))"
      unfolding slice [symmetric] by (simp add: take_map drop_map)
    also have "\<dots> = real T" unfolding T_def by (rule sum_list_map_real)
    finally show ?thesis .
  qed
  have rem: "js_rem (real T) (real val) = real (T mod val)"
    using pos by (rule js_rem_nat)
  have avg: "(real T - real (T mod val)) / real val = real (T div val)"
    using pos by (rule average_nat)
  have lt: "T mod val < val" using pos by simp
  have "assign_group (real (T div val)) val tc (real (T mod val)) (map real ns)
      = take tc (map real ns) @ replicate (min (T mod val) val) (real (T div val) + 1)
        @ replicate (val - T mod val) (real (T div val)) @ drop (tc + val) (map real ns)"
    using le by (intro assign_group_replicate) simp
  also have "\<dots> = map real (take tc ns @ replicate (T mod val) (T div val + 1)
           @ replicate (val - T mod val) (T div val) @ drop (tc + val) ns)"
    using lt by (simp add: take_map drop_map min_def)
  finally show ?thesis
    using assms(1) unfolding updateChances_group_def val Let_def slice
    by (simp add: total rem avg)
qed


lemma updateChances_group_single:
  "cnt \<le> 1 \<Longrightarrow> updateChances_group isFinal cnt tc chances = Inr (tc + cnt, chances)"
  by (simp add: updateChances_group_def)

lemma redistribute_sum:
  assumes "0 < v"
  shows "sum_list (replicate (T mod v) (T div v + 1) @ replicate (v - T mod v) (T div v)) = (T::nat)"
proof -
  have le: "T mod v \<le> v" using assms by (simp add: less_imp_le)
  have "sum_list (replicate (T mod v) (T div v + 1) @ replicate (v - T mod v) (T div v))
      = T mod v * (T div v + 1) + (v - T mod v) * (T div v)"
    by (simp add: sum_list_replicate)
  also have "\<dots> = T mod v + (T mod v + (v - T mod v)) * (T div v)"
    by (simp add: algebra_simps)
  also have "T mod v + (v - T mod v) = v" using le by simp
  finally show ?thesis by (simp add: mult.commute)
qed

lemma length_redistribute:
  "0 < v \<Longrightarrow> length (replicate (T mod v) (a::nat) @ replicate (v - T mod v) b) = v"
  by (simp add: less_imp_le)

lemma sum_list_take_drop:
  "sum_list (take tc ns) + sum_list (take val (drop tc ns)) + sum_list (drop (tc + val) ns)
     = sum_list (ns::nat list)"
proof -
  have "sum_list (take val (drop tc ns)) + sum_list (drop val (drop tc ns)) = sum_list (drop tc ns)"
    by (metis append_take_drop_id sum_list_append)
  moreover have "sum_list (take tc ns) + sum_list (drop tc ns) = sum_list ns"
    by (metis append_take_drop_id sum_list_append)
  moreover have "drop val (drop tc ns) = drop (tc + val) ns"
    by (simp add: add.commute)
  ultimately show ?thesis by simp
qed

text \<open>
  The final pass keeps natural weights natural, and keeps their number and their sum.
\<close>

lemma updateChances_loop_total:
  "tc < length ns \<Longrightarrow>
     \<exists>ms. updateChances_loop True wps tc (map real ns) = Inr (map real ms)
        \<and> length ms = length ns \<and> sum_list ms = sum_list ns"
proof (induction wps arbitrary: tc ns)
  case Nil
  then show ?case by auto
next
  case (Cons wp wps)
  show ?case
  proof (cases "1 < snd wp")
    case True
    define val where "val = min (snd wp) (length ns - tc)"
    define T where "T = sum_list (take val (drop tc ns))"
    define ns' where "ns' = take tc ns @ replicate (T mod val) (T div val + 1)
           @ replicate (val - T mod val) (T div val) @ drop (tc + val) ns"
    have pos: "0 < val" using True Cons.prems by (simp add: val_def)
    have le: "tc + val \<le> length ns" using Cons.prems by (simp add: val_def)
    have group: "updateChances_group True (snd wp) tc (map real ns) = Inr (tc + val, map real ns')"
      using updateChances_group_final [OF True Cons.prems]
      unfolding val_def T_def ns'_def by simp
    have len: "length ns' = length ns"
      using le length_redistribute [OF pos, of T "T div val + 1" "T div val"]
      unfolding ns'_def by simp
    have "sum_list ns' = sum_list (take tc ns) + T + sum_list (drop (tc + val) ns)"
      using redistribute_sum [OF pos, of T] unfolding ns'_def by simp
    then have sum: "sum_list ns' = sum_list ns"
      using sum_list_take_drop [of tc ns val] unfolding T_def by simp
    show ?thesis
    proof (cases "tc + val \<ge> length ns'")
      case True
      then have "updateChances_loop True (wp # wps) tc (map real ns) = Inr (map real ns')"
        by (simp add: group)
      with len sum show ?thesis by blast
    next
      case False
      then have "updateChances_loop True (wp # wps) tc (map real ns)
          = updateChances_loop True wps (tc + val) (map real ns')"
        by (simp add: group)
      moreover from False have "tc + val < length ns'" by simp
      from Cons.IH [OF this] obtain ms where
        "updateChances_loop True wps (tc + val) (map real ns') = Inr (map real ms)"
        "length ms = length ns'" "sum_list ms = sum_list ns'"
        by blast
      ultimately show ?thesis using len sum by auto
    qed
  next
    case False
    then have group: "updateChances_group True (snd wp) tc (map real ns)
        = Inr (tc + snd wp, map real ns)"
      by (simp add: updateChances_group_single)
    show ?thesis
    proof (cases "tc + snd wp \<ge> length ns")
      case True
      then have "updateChances_loop True (wp # wps) tc (map real ns) = Inr (map real ns)"
        by (simp add: group)
      then show ?thesis by blast
    next
      case False
      then have "updateChances_loop True (wp # wps) tc (map real ns)
          = updateChances_loop True wps (tc + snd wp) (map real ns)"
        by (simp add: group)
      moreover from False have "tc + snd wp < length ns" by simp
      from Cons.IH [OF this] obtain ms where
        "updateChances_loop True wps (tc + snd wp) (map real ns) = Inr (map real ms)"
        "length ms = length ns" "sum_list ms = sum_list ns"
        by blast
      ultimately show ?thesis by auto
    qed
  qed
qed














section \<open>Properties of the draft order\<close>

lemma mset_js_insert: "mset (js_insert cmp x xs) = add_mset x (mset xs)"
  by (induction xs) simp_all

lemma mset_js_sort: "mset (js_sort cmp xs) = mset xs"
  unfolding js_sort_def by (induction xs) (simp_all add: mset_js_insert)

lemma map_tid_randVal:
  "map tid (map (\<lambda>(i, t). t\<lparr>randVal := f i\<rparr>) (enumerate n (teams :: team list))) = map tid teams"
  by (induction teams arbitrary: n) simp_all

lemma mset_tid_lotterySort:
  "mset (map tid (lotterySort shuffle numTeams teams)) = mset (map tid teams)"
proof -
  let ?teams' = "map (\<lambda>(i, t). t\<lparr>randVal := js_index (shuffle (map int [0..<numTeams])) (int i)\<rparr>)
      (enumerate 0 teams)"
  have "mset (map tid (js_sort lottery_cmp ?teams')) = image_mset tid (mset (js_sort lottery_cmp ?teams'))"
    by (rule mset_map)
  also have "\<dots> = image_mset tid (mset ?teams')"
    by (simp only: mset_js_sort)
  also have "\<dots> = mset (map tid ?teams')"
    by (rule mset_map [symmetric])
  also have "\<dots> = mset (map tid teams)"
    by (simp only: map_tid_randVal)
  finally show ?thesis
    unfolding lotterySort_def Let_def .
qed

lemma length_lotterySort: "length (lotterySort shuffle numTeams teams) = length teams"
proof -
  have "size (mset (map tid (lotterySort shuffle numTeams teams))) = size (mset (map tid teams))"
    by (simp only: mset_tid_lotterySort)
  then show ?thesis by simp
qed

lemma findIndex_from_bound:
  "findIndex_from n P xs = Some i \<Longrightarrow> n \<le> i \<and> i < n + length xs"
proof (induction xs arbitrary: n)
  case Nil
  then show ?case by simp
next
  case (Cons x xs)
  show ?case
  proof (cases "P x")
    case True
    with Cons.prems show ?thesis by simp
  next
    case False
    with Cons.prems have "findIndex_from (n + 1) P xs = Some i" by simp
    from Cons.IH [OF this] show ?thesis by simp
  qed
qed

text \<open>The drawing loop ends with three distinct indices of teams.\<close>

lemma draw_firstThree_distinct:
  "draw_firstThree chances draws teams firstThree = Inr (teams', firstThree') \<Longrightarrow>
     distinct firstThree \<Longrightarrow> length firstThree \<le> 3 \<Longrightarrow>
     \<forall>i \<in> set firstThree. i < length teams \<and> i < length chances \<Longrightarrow>
       distinct firstThree' \<and> length firstThree' = 3
       \<and> (\<forall>i \<in> set firstThree'. i < length teams \<and> i < length chances)
       \<and> map tid teams' = map tid teams"
proof (induction draws arbitrary: teams firstThree)
  case Nil
  then show ?case by (auto split: if_splits)
next
  case (Cons draw draws)
  show ?case
  proof (cases "length firstThree < 3")
    case False
    with Cons.prems show ?thesis by auto
  next
    case True
    with Cons.prems(1) obtain i where
      i: "findIndex_from 0 (\<lambda>chance. chance > real_of_int draw) chances = Some i"
      by (auto split: option.splits)
    from findIndex_from_bound [OF i] have ic: "i < length chances" by simp
    show ?thesis
    proof (cases "i \<in> set firstThree")
      case True
      with \<open>length firstThree < 3\<close> i Cons.prems(1)
      have "draw_firstThree chances draws teams firstThree = Inr (teams', firstThree')"
        by simp
      from Cons.IH [OF this Cons.prems(2,3,4)] show ?thesis .
    next
      case False
      let ?teams = "teams[i := (teams ! i)\<lparr>randVal := map_option (\<lambda>v. v - 30) (randVal (teams ! i))\<rparr>]"
      from False \<open>length firstThree < 3\<close> i Cons.prems(1)
      have it: "i < length teams"
        and run: "draw_firstThree chances draws ?teams (firstThree @ [i]) = Inr (teams', firstThree')"
        by (auto split: if_splits)
      have tids: "map tid ?teams = map tid teams"
        using it by (simp add: map_update list_update_same_conv)
      have "distinct (firstThree @ [i])" "length (firstThree @ [i]) \<le> 3"
        "\<forall>j \<in> set (firstThree @ [i]). j < length ?teams \<and> j < length chances"
        using False Cons.prems(2,4) \<open>length firstThree < 3\<close> it ic by auto
      from Cons.IH [OF run this] tids show ?thesis by simp
    qed
  qed
qed

lemma collect_Inr:
  "collect (map f xs) = Inr ys \<Longrightarrow> list_all2 (\<lambda>x y. f x = Inr y) xs ys"
proof (induction xs arbitrary: ys)
  case Nil
  then show ?case by simp
next
  case (Cons x xs)
  then show ?case
    by (cases "f x"; cases "collect (map f xs)") auto
qed

lemma order_entry_Inr:
  "order_entry indexed rnd t pk = Inr e \<Longrightarrow> originalTid e = tid t \<and> round' e = rnd"
  by (auto simp: order_entry_def split: option.splits)

lemma collect_order_entries:
  assumes "collect (map (\<lambda>(k, t). order_entry indexed rnd (g t) (h k)) (enumerate n xs)) = Inr es"
  shows "map originalTid es = map (\<lambda>t. tid (g t)) xs \<and> (\<forall>e \<in> set es. round' e = rnd)"
proof -
  from collect_Inr [OF assms]
  have all: "list_all2 (\<lambda>kt e. (case kt of (k, t) \<Rightarrow> order_entry indexed rnd (g t) (h k)) = Inr e)
      (enumerate n xs) es" .
  then have len: "length es = length xs"
    by (auto dest: list_all2_lengthD)
  have entry: "originalTid (es ! j) = tid (g (xs ! j)) \<and> round' (es ! j) = rnd" if "j < length xs" for j
  proof -
    from all that have "(case enumerate n xs ! j of (k, t) \<Rightarrow> order_entry indexed rnd (g t) (h k))
        = Inr (es ! j)"
      by (simp add: list_all2_conv_all_nth)
    with that show ?thesis
      by (auto simp: nth_enumerate_eq dest: order_entry_Inr)
  qed
  have "map originalTid es = map (\<lambda>t. tid (g t)) xs"
    using len entry by (intro nth_equalityI) simp_all
  moreover have "\<forall>e \<in> set es. round' e = rnd"
    using len entry by (auto simp: in_set_conv_nth)
  ultimately show ?thesis by blast
qed

text \<open>Some teams by their indices, and all the others, are all the teams.\<close>

lemma mset_chosen_and_others:
  assumes "distinct js" and "\<forall>j \<in> set js. j < length xs"
  shows "mset (map (\<lambda>j. xs ! j) js)
      + mset (map snd (filter (\<lambda>(i, t). i \<notin> set js) (enumerate 0 xs))) = mset xs"
proof -
  let ?n = "length xs"
  have others: "map snd (filter (\<lambda>(i, t). i \<notin> set js) (enumerate 0 xs))
      = map (\<lambda>j. xs ! j) (filter (\<lambda>i. i \<notin> set js) [0..<?n])"
  proof -
    have "enumerate 0 xs = map (\<lambda>i. (i, xs ! i)) [0..<?n]"
      by (intro nth_equalityI) (simp_all add: nth_enumerate_eq)
    then show ?thesis
      by (simp add: filter_map o_def)
  qed
  have "mset js = mset (filter (\<lambda>i. i \<in> set js) [0..<?n])"
  proof (rule iffD1 [OF set_eq_iff_mset_eq_distinct])
    show "distinct js" by fact
    show "distinct (filter (\<lambda>i. i \<in> set js) [0..<?n])" by simp
    show "set js = set (filter (\<lambda>i. i \<in> set js) [0..<?n])"
      using assms(2) by auto
  qed
  then have "mset (map (\<lambda>j. xs ! j) js)
      = image_mset (\<lambda>j. xs ! j) (mset (filter (\<lambda>i. i \<in> set js) [0..<?n]))"
    by (metis mset_map)
  then have "mset (map (\<lambda>j. xs ! j) js)
      + mset (map snd (filter (\<lambda>(i, t). i \<notin> set js) (enumerate 0 xs)))
      = image_mset (\<lambda>j. xs ! j) (mset (filter (\<lambda>i. i \<in> set js) [0..<?n])
          + mset (filter (\<lambda>i. i \<notin> set js) [0..<?n]))"
    unfolding others by simp
  also have "mset (filter (\<lambda>i. i \<in> set js) [0..<?n]) + mset (filter (\<lambda>i. i \<notin> set js) [0..<?n])
      = mset [0..<?n]"
    by (simp only: mset_filter multiset_partition [symmetric])
  also have "image_mset (\<lambda>j. xs ! j) (mset [0..<?n]) = mset (map (\<lambda>j. xs ! j) [0..<?n])"
    by simp
  also have "map (\<lambda>j. xs ! j) [0..<?n] = xs"
    by (rule map_nth)
  finally show ?thesis .
qed

lemma delete_draftPicks_filter:
  "delete_draftPicks rows dps = filter (\<lambda>q. dpid q \<notin> dpid ` set dps) rows"
  unfolding delete_draftPicks_def
proof (induction dps arbitrary: rows)
  case Nil
  then show ?case by simp
next
  case (Cons dp dps)
  show ?case
    by (auto simp: Cons.IH intro: filter_cong)
qed

lemma delete_draftPicks_season:
  "draftPicksBySeason (delete_draftPicks rows (draftPicksBySeason rows s)) s = []"
  by (auto simp: delete_draftPicks_filter draftPicksBySeason_def filter_empty_conv)

lemma sum_list_percent:
  "sum_list (map (\<lambda>c. (c / T) * 100) chances) = (sum_list chances / T) * (100::real)"
  by (induction chances) (simp_all add: add_divide_distrib distrib_right)

lemma lottery_chances_nat:
  "lottery_chances = map real [250, 199, 156, 119, 88, 63, 43, 28, 17, 11, 8, 7, 6, 5]"
  by (simp add: lottery_chances_def)

text \<open>The final pass over the lottery table gives 14 weights that sum to 1000.\<close>

lemma updateChances_lottery_total:
  "\<exists>chances. updateChances lottery_chances teams True = Inr chances
      \<and> length chances = 14 \<and> sum_list chances = 1000"
proof -
  let ?ns = "[250, 199, 156, 119, 88, 63, 43, 28, 17, 11, 8, 7, 6, 5] :: nat list"
  have "0 < length ?ns" by simp
  from updateChances_loop_total [OF this, of "sort_key fst (countBy_winp teams)"]
  obtain ms where run: "updateChances lottery_chances teams True = Inr (map real ms)"
    and "length ms = length ?ns" and "sum_list ms = sum_list ?ns"
    unfolding updateChances_def lottery_chances_nat by blast
  then have "length (map real ms) = 14" "sum_list (map real ms) = 1000"
    by (simp_all add: sum_list_map_real)
  with run show ?thesis by blast
qed

lemma length_cumsum: "length (cumsum chances) = length chances"
proof -
  have "length (cumsum_loop n i xs) = length xs" for n i and xs :: "real list"
    by (induction n arbitrary: i xs) simp_all
  then show ?thesis by (simp add: cumsum_def)
qed

text \<open>What a run of \<open>genOrder\<close> that returns has gone through.\<close>

lemma genOrder_Inr:
  assumes "genOrder shuffle draws teams0 lg = Inr r"
  defines "rows \<equiv> (if length (draftPicksBySeason (draftPicks lg) (g_season lg)) = 0
                    then genPicks (g_numTeams lg) (g_season lg) (draftPicks lg)
                    else draftPicks lg)"
  defines "indexed \<equiv> draftPicksIndexed (draftPicksBySeason rows (g_season lg))"
  shows "\<exists>chances teams firstThree winners others second.
      updateChances lottery_chances (lotterySort shuffle (g_numTeams lg) teams0) True = Inr chances
      \<and> draw_firstThree (cumsum chances) draws (lotterySort shuffle (g_numTeams lg) teams0) []
          = Inr (teams, firstThree)
      \<and> collect (map (\<lambda>(k, i). order_entry indexed 1 (teams ! i) (int k + 1))
            (enumerate 0 firstThree)) = Inr winners
      \<and> collect (map (\<lambda>(k, t). order_entry indexed 1 t (int k + 4))
            (enumerate 0 (map snd (filter (\<lambda>(i, t). i \<notin> set firstThree) (enumerate 0 teams)))))
          = Inr others
      \<and> collect (map (\<lambda>(k, t). order_entry indexed 2 t (int k + 1))
            (enumerate 0 (js_sort round2_cmp teams))) = Inr second
      \<and> run_league r = lg\<lparr>draftPicks := delete_draftPicks rows (draftPicksBySeason rows (g_season lg)),
                            draftOrder := Some (winners @ others @ second)\<rparr>
      \<and> run_chancePct r = map (\<lambda>c. (c / sum_list chances) * 100) chances
      \<and> run_firstThree r = firstThree"
proof -
  let ?sorted = "lotterySort shuffle (g_numTeams lg) teams0"
  from assms(1) obtain chances where
    upd: "updateChances lottery_chances ?sorted True = Inr chances"
    unfolding genOrder_def Let_def by (cases "updateChances lottery_chances ?sorted True") auto
  from assms(1) obtain teams firstThree where
    draw: "draw_firstThree (cumsum chances) draws ?sorted [] = Inr (teams, firstThree)"
    unfolding genOrder_def Let_def upd
    by (cases "draw_firstThree (cumsum chances) draws ?sorted []") auto
  let ?W = "collect (map (\<lambda>(k, i). order_entry indexed 1 (teams ! i) (int k + 1))
            (enumerate 0 firstThree))"
  let ?O = "collect (map (\<lambda>(k, t). order_entry indexed 1 t (int k + 4))
            (enumerate 0 (map snd (filter (\<lambda>(i, t). i \<notin> set firstThree) (enumerate 0 teams)))))"
  let ?S = "collect (map (\<lambda>(k, t). order_entry indexed 2 t (int k + 1))
            (enumerate 0 (js_sort round2_cmp teams)))"
  note run = assms(1) [unfolded genOrder_def Let_def upd draw sum.case prod.case,
      folded rows_def, folded indexed_def]
  from run obtain winners where w: "?W = Inr winners"
    by (cases ?W) (auto split: sum.splits)
  from run obtain others where o: "?O = Inr others"
    unfolding w by (cases ?O) (auto split: sum.splits)
  from run obtain second where s: "?S = Inr second"
    unfolding w o by (cases ?S) (auto split: sum.splits)
  from run have "r = \<lparr>run_league =
                      lg\<lparr>draftPicks := delete_draftPicks rows (draftPicksBySeason rows (g_season lg)),
                         draftOrder := Some (winners @ others @ second)\<rparr>,
                    run_chancePct = map (\<lambda>c. (c / sum_list chances) * 100) chances,
                    run_firstThree = firstThree\<rparr>"
    unfolding w o s by (auto split: sum.splits)
  then have "run_league r = lg\<lparr>draftPicks := delete_draftPicks rows (draftPicksBySeason rows (g_season lg)),
                            draftOrder := Some (winners @ others @ second)\<rparr>"
    "run_chancePct r = map (\<lambda>c. (c / sum_list chances) * 100) chances"
    "run_firstThree r = firstThree"
    by simp_all
  with upd draw w o s show ?thesis by blast
qed

text \<open>
  Claim C1. When \<open>genOrder\<close> returns, the draft order it has stored holds, among its
  entries of round 1, the \<open>tid\<close> of every team once as \<open>originalTid\<close> (as multisets, the
  \<open>originalTid\<close>s of the round are the \<open>tid\<close>s of the teams), the same for round 2, and the
  \<open>draftPicks\<close> store has no row of the season left.
\<close>

theorem genOrder_rounds:
  "genOrder shuffle draws teams lg = Inr r \<longrightarrow>
     (\<exists>order. draftOrder (run_league r) = Some order
        \<and> mset (map originalTid (filter (\<lambda>e. round' e = 1) order)) = mset (map tid teams)
        \<and> mset (map originalTid (filter (\<lambda>e. round' e = 2) order)) = mset (map tid teams)
        \<and> length order = 2 * length teams)
     \<and> draftPicksBySeason (draftPicks (run_league r)) (g_season lg) = []"
proof
  assume "genOrder shuffle draws teams lg = Inr r"
  from genOrder_Inr [OF this] obtain chances teams' firstThree rows indexed winners others second
    where upd': "updateChances lottery_chances (lotterySort shuffle (g_numTeams lg) teams) True = Inr chances" and draw: "draw_firstThree (cumsum chances) draws (lotterySort shuffle (g_numTeams lg) teams) []
          = Inr (teams', firstThree)"
      and winners: "collect (map (\<lambda>(k, i). order_entry indexed 1 (teams' ! i) (int k + 1))
            (enumerate 0 firstThree)) = Inr winners"
      and others: "collect (map (\<lambda>(k, t). order_entry indexed 1 t (int k + 4))
            (enumerate 0 (map snd (filter (\<lambda>(i, t). i \<notin> set firstThree) (enumerate 0 teams')))))
          = Inr others"
      and second: "collect (map (\<lambda>(k, t). order_entry indexed 2 t (int k + 1))
            (enumerate 0 (js_sort round2_cmp teams'))) = Inr second"
      and league: "run_league r = lg\<lparr>draftPicks := delete_draftPicks rows (draftPicksBySeason rows (g_season lg)),
                            draftOrder := Some (winners @ others @ second)\<rparr>"
    by blast
  let ?sorted = "lotterySort shuffle (g_numTeams lg) teams"
  from draw_firstThree_distinct [OF draw]
  have dist: "distinct firstThree" and bound: "\<forall>i \<in> set firstThree. i < length ?sorted"
    and tids: "map tid teams' = map tid ?sorted"
    by simp_all
  from tids have len': "length teams' = length ?sorted"
    by (rule map_eq_imp_length_eq)
  have tids_mset: "mset (map tid teams') = mset (map tid teams)"
    unfolding tids by (rule mset_tid_lotterySort)
  have w: "map originalTid winners = map (\<lambda>i. tid (teams' ! i)) firstThree"
    "\<forall>e \<in> set winners. round' e = 1"
    using collect_order_entries [of indexed 1 "\<lambda>i. teams' ! i" "\<lambda>k. int k + 1" 0 firstThree winners]
      winners by simp_all
  have o: "map originalTid others
      = map tid (map snd (filter (\<lambda>(i, t). i \<notin> set firstThree) (enumerate 0 teams')))"
    "\<forall>e \<in> set others. round' e = 1"
    using collect_order_entries [of indexed 1 "\<lambda>t. t" "\<lambda>k. int k + 4" 0 _ others]
      others by simp_all
  have s: "map originalTid second = map tid (js_sort round2_cmp teams')"
    "\<forall>e \<in> set second. round' e = 2"
    using collect_order_entries [of indexed 2 "\<lambda>t. t" "\<lambda>k. int k + 1" 0 _ second]
      second by simp_all
  let ?order = "winners @ others @ second"
  have r1: "filter (\<lambda>e. round' e = 1) ?order = winners @ others"
    using w(2) o(2) s(2) by (simp add: filter_empty_conv)
  have r2: "filter (\<lambda>e. round' e = 2) ?order = second"
    using w(2) o(2) s(2) by (simp add: filter_empty_conv)
  have "map originalTid (winners @ others)
      = map tid (map (\<lambda>i. teams' ! i) firstThree
          @ map snd (filter (\<lambda>(i, t). i \<notin> set firstThree) (enumerate 0 teams')))"
    by (simp add: w(1) o(1))
  then have "mset (map originalTid (winners @ others))
      = image_mset tid (mset (map (\<lambda>i. teams' ! i) firstThree)
          + mset (map snd (filter (\<lambda>(i, t). i \<notin> set firstThree) (enumerate 0 teams'))))"
    by (simp only: mset_map mset_append)
  also have "\<dots> = image_mset tid (mset teams')"
    using mset_chosen_and_others [OF dist, of teams'] bound len' by simp
  finally have m1: "mset (map originalTid (filter (\<lambda>e. round' e = 1) ?order)) = mset (map tid teams)"
    unfolding r1 using tids_mset by simp
  have "mset (map originalTid second) = image_mset tid (mset (js_sort round2_cmp teams'))"
    unfolding s(1) by simp
  then have m2: "mset (map originalTid (filter (\<lambda>e. round' e = 2) ?order)) = mset (map tid teams)"
    unfolding r2 using tids_mset by (simp add: mset_js_sort)
  have "length (map originalTid (winners @ others)) = length (map tid teams)"
    using m1 unfolding r1 by (rule mset_eq_length)
  moreover have "length (map originalTid second) = length (map tid teams)"
    using m2 unfolding r2 by (rule mset_eq_length)
  ultimately have len: "length ?order = 2 * length teams" by simp
  have "draftOrder (run_league r) = Some ?order"
    unfolding league by simp
  moreover have "draftPicksBySeason (draftPicks (run_league r)) (g_season lg) = []"
    unfolding league by (simp add: delete_draftPicks_season)
  ultimately show "(\<exists>order. draftOrder (run_league r) = Some order
        \<and> mset (map originalTid (filter (\<lambda>e. round' e = 1) order)) = mset (map tid teams)
        \<and> mset (map originalTid (filter (\<lambda>e. round' e = 2) order)) = mset (map tid teams)
        \<and> length order = 2 * length teams)
     \<and> draftPicksBySeason (draftPicks (run_league r)) (g_season lg) = []"
    using m1 m2 len by blast
qed

text \<open>
  Claim C3. When \<open>genOrder\<close> returns, the lottery has chosen three indices, mutually
  distinct, each of one of the first 14 teams in lottery order; and the percentages, taken
  from the weights before the cumulative sums are formed, sum to 100: the final pass of
  \<open>updateChances\<close> keeps the total of 1000 for every list of teams.
\<close>

theorem genOrder_lottery:
  "genOrder shuffle draws teams lg = Inr r \<longrightarrow>
     length (run_firstThree r) = 3 \<and> distinct (run_firstThree r)
     \<and> (\<forall>i \<in> set (run_firstThree r). i < length teams \<and> i < 14)
     \<and> length (run_chancePct r) = 14
     \<and> sum_list (run_chancePct r) = 100"
proof
  assume "genOrder shuffle draws teams lg = Inr r"
  from genOrder_Inr [OF this] obtain chances teams' firstThree
    where upd: "updateChances lottery_chances (lotterySort shuffle (g_numTeams lg) teams) True
          = Inr chances"
      and draw: "draw_firstThree (cumsum chances) draws (lotterySort shuffle (g_numTeams lg) teams) []
          = Inr (teams', firstThree)"
      and pct: "run_chancePct r = map (\<lambda>c. (c / sum_list chances) * 100) chances"
      and ft: "run_firstThree r = firstThree"
    by blast
  from updateChances_lottery_total [of "lotterySort shuffle (g_numTeams lg) teams"] upd
  have len: "length chances = 14" and total: "sum_list chances = 1000"
    by auto
  from draw_firstThree_distinct [OF draw]
  have "distinct firstThree" "length firstThree = 3"
    "\<forall>i \<in> set firstThree. i < length teams \<and> i < 14"
    by (simp_all add: length_cumsum len length_lotterySort)
  moreover have "sum_list (run_chancePct r) = 100"
    unfolding pct sum_list_percent total by simp
  moreover have "length (run_chancePct r) = 14"
    unfolding pct by (simp add: len)
  ultimately show "length (run_firstThree r) = 3 \<and> distinct (run_firstThree r)
     \<and> (\<forall>i \<in> set (run_firstThree r). i < length teams \<and> i < 14)
     \<and> length (run_chancePct r) = 14
     \<and> sum_list (run_chancePct r) = 100"
    unfolding ft by blast
qed


subsection \<open>When \<open>genOrder\<close> returns\<close>

lemma findIndex_from_Some:
  "\<exists>x \<in> set xs. P x \<Longrightarrow> \<exists>i. findIndex_from n P xs = Some i"
  by (induction xs arbitrary: n) auto

lemma last_cumsum_loop:
  "1 \<le> i \<Longrightarrow> i + n = length xs \<Longrightarrow>
     last (cumsum_loop n i xs) = xs ! (i - 1) + sum_list (drop i xs)"
proof (induction n arbitrary: i xs)
  case 0
  then have "xs \<noteq> []" "i = length xs" by auto
  then show ?case by (simp add: last_conv_nth)
next
  case (Suc n)
  let ?xs = "xs[i := xs ! i + xs ! (i - 1)]"
  from Suc.prems have i: "i < length xs" by simp
  from Suc.prems have "1 \<le> i + 1" "(i + 1) + n = length ?xs" by simp_all
  from Suc.IH [OF this] have "last (cumsum_loop n (i + 1) ?xs)
      = ?xs ! i + sum_list (drop (i + 1) ?xs)"
    by simp
  also have "?xs ! i = xs ! i + xs ! (i - 1)" using i by simp
  also have "drop (i + 1) ?xs = drop (i + 1) xs" by simp
  also have "xs ! i + xs ! (i - 1) + sum_list (drop (i + 1) xs) = xs ! (i - 1) + sum_list (drop i xs)"
    using i by (simp add: Cons_nth_drop_Suc [symmetric])
  finally show ?case by simp
qed

lemma last_cumsum: "xs \<noteq> [] \<Longrightarrow> last (cumsum xs) = sum_list xs"
proof -
  assume ne: "xs \<noteq> []"
  then obtain x rest where xs: "xs = x # rest" by (cases xs) auto
  have "last (cumsum_loop (length xs - 1) 1 xs) = xs ! (1 - 1) + sum_list (drop 1 xs)"
    using ne by (intro last_cumsum_loop) (simp_all add: Suc_leI)
  then show ?thesis
    unfolding cumsum_def xs by simp
qed

text \<open>Every draw from 0 to 999 falls into one of the 14 buckets of the final weights.\<close>

lemma bucket_exists:
  assumes "updateChances lottery_chances teams True = Inr chances" and "draw \<le> 999"
  shows "\<exists>i < 14. findIndex_from 0 (\<lambda>chance. chance > real_of_int draw) (cumsum chances) = Some i"
proof -
  from updateChances_lottery_total [of teams] assms(1)
  have len: "length chances = 14" and total: "sum_list chances = 1000" by auto
  then have ne: "cumsum chances \<noteq> []"
    using length_cumsum [of chances] by auto
  have "last (cumsum chances) = 1000"
    using len total by (subst last_cumsum) auto
  then have "last (cumsum chances) > real_of_int draw"
    using assms(2) by simp
  moreover have "last (cumsum chances) \<in> set (cumsum chances)"
    using ne by simp
  ultimately obtain i where i: "findIndex_from 0 (\<lambda>chance. chance > real_of_int draw) (cumsum chances) = Some i"
    using findIndex_from_Some [of "cumsum chances" "\<lambda>chance. chance > real_of_int draw" 0] by blast
  from findIndex_from_bound [OF i] have "i < 14"
    by (simp add: length_cumsum len)
  with i show ?thesis by blast
qed

text \<open>
  The drawing loop returns as soon as the draws have hit enough buckets that were not drawn
  before, if every draw hits the bucket of a team.
\<close>

lemma draw_firstThree_returns:
  assumes "\<forall>d \<in> set draws. \<exists>i < length teams. findIndex_from 0 (\<lambda>chance. chance > real_of_int d) chances = Some i"
    and "3 \<le> length firstThree
         + card ((\<lambda>d. findIndex_from 0 (\<lambda>chance. chance > real_of_int d) chances) ` set draws
               - Some ` set firstThree)"
  shows "\<exists>res. draw_firstThree chances draws teams firstThree = Inr res"
  using assms
proof (induction draws arbitrary: teams firstThree)
  case Nil
  then show ?case by simp
next
  case (Cons d draws)
  let ?b = "\<lambda>d. findIndex_from 0 (\<lambda>chance. chance > real_of_int d) chances"
  show ?case
  proof (cases "length firstThree < 3")
    case False
    then show ?thesis by simp
  next
    case True
    from Cons.prems(1) obtain i where i: "?b d = Some i" and it: "i < length teams"
      by auto
    show ?thesis
    proof (cases "i \<in> set firstThree")
      case True
      then have "?b ` set (d # draws) - Some ` set firstThree = ?b ` set draws - Some ` set firstThree"
        using i by auto
      with Cons.prems have "\<exists>res. draw_firstThree chances draws teams firstThree = Inr res"
        by (intro Cons.IH) simp_all
      with True \<open>length firstThree < 3\<close> i show ?thesis by simp
    next
      case False
      let ?teams = "teams[i := (teams ! i)\<lparr>randVal := map_option (\<lambda>v. v - 30) (randVal (teams ! i))\<rparr>]"
      have sub: "?b ` set (d # draws) - Some ` set firstThree
          \<subseteq> insert (Some i) (?b ` set draws - Some ` set (firstThree @ [i]))"
        using i by auto
      have "card (?b ` set (d # draws) - Some ` set firstThree)
          \<le> card (insert (Some i) (?b ` set draws - Some ` set (firstThree @ [i])))"
        by (rule card_mono [OF _ sub]) simp
      also have "\<dots> \<le> Suc (card (?b ` set draws - Some ` set (firstThree @ [i])))"
        by (simp add: card_insert_if)
      finally have "3 \<le> length (firstThree @ [i])
          + card (?b ` set draws - Some ` set (firstThree @ [i]))"
        using Cons.prems(2) by simp
      moreover have "\<forall>d \<in> set draws. \<exists>i < length ?teams. ?b d = Some i"
        using Cons.prems(1) by simp
      ultimately have "\<exists>res. draw_firstThree chances draws ?teams (firstThree @ [i]) = Inr res"
        by (rule Cons.IH [rotated])
      with False \<open>length firstThree < 3\<close> i it show ?thesis by simp
    qed
  qed
qed


lemma enumerate_snd_in: "p \<in> set (enumerate n xs) \<Longrightarrow> snd p \<in> set xs"
  by (cases p) (auto simp: enumerate_eq_zip dest: set_zip_rightD)

lemma collect_returns:
  "\<forall>x \<in> set xs. \<exists>y. f x = Inr y \<Longrightarrow> \<exists>ys. collect (map f xs) = Inr ys"
proof (induction xs)
  case Nil
  then show ?case by simp
next
  case (Cons x xs)
  then obtain y ys where "f x = Inr y" "collect (map f xs) = Inr ys" by auto
  then show ?case by simp
qed

lemma draftPicksIndexed_Some:
  assumes "\<exists>dp \<in> set dps. originalTid dp = t \<and> round' dp = rnd"
  shows "\<exists>owner. draftPicksIndexed dps (t, rnd) = Some owner"
proof -
  have "\<exists>owner. foldl (\<lambda>m dp. m((originalTid dp, round' dp) \<mapsto> tid dp)) m dps (t, rnd) = Some owner"
    if "(\<exists>owner. m (t, rnd) = Some owner) \<or> (\<exists>dp \<in> set dps. originalTid dp = t \<and> round' dp = rnd)"
    for m :: "int \<times> int \<rightharpoonup> int"
    using that
  proof (induction dps arbitrary: m)
    case Nil
    then show ?case by simp
  next
    case (Cons dp dps)
    have "(\<exists>owner. (m((originalTid dp, round' dp) \<mapsto> tid dp)) (t, rnd) = Some owner)
        \<or> (\<exists>dp \<in> set dps. originalTid dp = t \<and> round' dp = rnd)"
      using Cons.prems by auto
    from Cons.IH [of "m((originalTid dp, round' dp) \<mapsto> tid dp)", OF this] show ?case by simp
  qed
  with assms show ?thesis unfolding draftPicksIndexed_def by blast
qed

lemma set_tid_draw_firstThree:
  "draw_firstThree chances draws teams firstThree = Inr (teams', firstThree') \<Longrightarrow>
     map tid teams' = map tid teams"
proof (induction draws arbitrary: teams firstThree)
  case Nil
  then show ?case by (auto split: if_splits)
next
  case (Cons d draws)
  show ?case
  proof (cases "length firstThree < 3")
    case False
    with Cons.prems show ?thesis by simp
  next
    case True
    with Cons.prems obtain i where
      i: "findIndex_from 0 (\<lambda>chance. chance > real_of_int d) chances = Some i"
      by (auto split: option.splits)
    show ?thesis
    proof (cases "i \<in> set firstThree")
      case True
      with \<open>length firstThree < 3\<close> i Cons.prems Cons.IH show ?thesis by simp
    next
      case False
      let ?teams = "teams[i := (teams ! i)\<lparr>randVal := map_option (\<lambda>v. v - 30) (randVal (teams ! i))\<rparr>]"
      from False \<open>length firstThree < 3\<close> i Cons.prems
      have it: "i < length teams"
        and run: "draw_firstThree chances draws ?teams (firstThree @ [i]) = Inr (teams', firstThree')"
        by (auto split: if_splits)
      have "map tid ?teams = map tid teams"
        using it by (simp add: map_update list_update_same_conv)
      with Cons.IH [OF run] show ?thesis by simp
    qed
  qed
qed

text \<open>
  \<open>genOrder\<close> returns when there are at least 14 teams, every team has its picks of both
  rounds among the picks that are read, every draw is at most 999, and the draws fall into
  at least three buckets of the cumulated weights.
\<close>

lemma genOrder_returns:
  assumes teams: "14 \<le> length teams"
    and draws: "\<forall>d \<in> set draws. d \<le> 999"
    and buckets: "\<And>chances.
        updateChances lottery_chances (lotterySort shuffle (g_numTeams lg) teams) True = Inr chances \<Longrightarrow>
        3 \<le> card ((\<lambda>d. findIndex_from 0 (\<lambda>chance. chance > real_of_int d) (cumsum chances)) ` set draws)"
    and picks: "\<forall>t \<in> set teams. \<forall>rnd \<in> {1, 2}.
        \<exists>dp \<in> set (draftPicksBySeason
            (if length (draftPicksBySeason (draftPicks lg) (g_season lg)) = 0
             then genPicks (g_numTeams lg) (g_season lg) (draftPicks lg)
             else draftPicks lg) (g_season lg)).
          originalTid dp = tid t \<and> round' dp = rnd"
  shows "\<exists>r. genOrder shuffle draws teams lg = Inr r"
proof -
  let ?sorted = "lotterySort shuffle (g_numTeams lg) teams"
  define rows where "rows = (if length (draftPicksBySeason (draftPicks lg) (g_season lg)) = 0
             then genPicks (g_numTeams lg) (g_season lg) (draftPicks lg)
             else draftPicks lg)"
  define indexed where "indexed = draftPicksIndexed (draftPicksBySeason rows (g_season lg))"
  note picks' = picks [folded rows_def]
  obtain chances where upd: "updateChances lottery_chances ?sorted True = Inr chances"
    using updateChances_lottery_total [of ?sorted] by blast
  have len: "14 \<le> length ?sorted" using teams by (simp add: length_lotterySort)
  have "\<forall>d \<in> set draws. \<exists>i < length ?sorted.
      findIndex_from 0 (\<lambda>chance. chance > real_of_int d) (cumsum chances) = Some i"
  proof
    fix d assume "d \<in> set draws"
    with draws have "d \<le> 999" by blast
    from bucket_exists [OF upd this] len
    show "\<exists>i < length ?sorted.
        findIndex_from 0 (\<lambda>chance. chance > real_of_int d) (cumsum chances) = Some i"
      by (auto intro: less_le_trans)
  qed
  moreover have "3 \<le> length ([] :: nat list)
      + card ((\<lambda>d. findIndex_from 0 (\<lambda>chance. chance > real_of_int d) (cumsum chances)) ` set draws
            - Some ` set ([] :: nat list))"
    using buckets [OF upd] by simp
  ultimately obtain teams' firstThree where
    draw: "draw_firstThree (cumsum chances) draws ?sorted [] = Inr (teams', firstThree)"
    using draw_firstThree_returns [of draws ?sorted "cumsum chances" "[]"] by auto
  from draw_firstThree_distinct [OF draw]
  have bound: "\<forall>i \<in> set firstThree. i < length ?sorted" by simp
  have tids: "map tid teams' = map tid ?sorted"
    using draw by (rule set_tid_draw_firstThree)
  then have len': "length teams' = length ?sorted"
    by (rule map_eq_imp_length_eq)
  have "set (map tid teams') = set (map tid teams)"
    unfolding tids using mset_tid_lotterySort [of shuffle "g_numTeams lg" teams]
    by (rule mset_eq_setD)
  then have known: "\<exists>t0 \<in> set teams. tid t = tid t0" if "t \<in> set teams'" for t
    using that by (auto simp: image_iff dest!: equalityD1)
  have entry: "\<exists>e. order_entry indexed rnd t pk = Inr e"
    if "t \<in> set teams'" "rnd = 1 \<or> rnd = 2" for t rnd pk
  proof -
    from known [OF that(1)] obtain t0 where "t0 \<in> set teams" "tid t = tid t0" by blast
    with picks' that(2) have "\<exists>dp \<in> set (draftPicksBySeason rows (g_season lg)).
        originalTid dp = tid t \<and> round' dp = rnd"
      by auto
    from draftPicksIndexed_Some [OF this] show ?thesis
      unfolding indexed_def by (auto simp: order_entry_def)
  qed
  have log: "logLotteryChances (map (\<lambda>c. (c / sum_list chances) * 100) chances) teams' indexed = Inr ()"
  proof -
    have "\<exists>ys. collect (map (\<lambda>(c, t). order_entry indexed 1 t 0)
        (zip (map (\<lambda>c. (c / sum_list chances) * 100) chances) teams')) = Inr ys"
      by (rule collect_returns) (auto dest: set_zip_rightD intro: entry)
    then show ?thesis
      by (auto simp: logLotteryChances_def)
  qed
  obtain winners where w: "collect (map (\<lambda>(k, i). order_entry indexed 1 (teams' ! i) (int k + 1))
      (enumerate 0 firstThree)) = Inr winners"
  proof -
    have "\<exists>ys. collect (map (\<lambda>(k, i). order_entry indexed 1 (teams' ! i) (int k + 1))
        (enumerate 0 firstThree)) = Inr ys"
    proof (rule collect_returns, rule ballI)
      fix p assume "p \<in> set (enumerate 0 firstThree)"
      then have "snd p \<in> set firstThree" by (rule enumerate_snd_in)
      with bound len' have "teams' ! snd p \<in> set teams'" by simp
      from entry [OF this, of 1 "int (fst p) + 1"]
      show "\<exists>y. (case p of (k, i) \<Rightarrow> order_entry indexed 1 (teams' ! i) (int k + 1)) = Inr y"
        by (simp add: case_prod_beta)
    qed
    with that show thesis by blast
  qed
  obtain others where o: "collect (map (\<lambda>(k, t). order_entry indexed 1 t (int k + 4))
      (enumerate 0 (map snd (filter (\<lambda>(i, t). i \<notin> set firstThree) (enumerate 0 teams'))))) = Inr others"
  proof -
    have "\<exists>ys. collect (map (\<lambda>(k, t). order_entry indexed 1 t (int k + 4))
        (enumerate 0 (map snd (filter (\<lambda>(i, t). i \<notin> set firstThree) (enumerate 0 teams'))))) = Inr ys"
    proof (rule collect_returns, rule ballI)
      fix p assume "p \<in> set (enumerate 0 (map snd (filter (\<lambda>(i, t). i \<notin> set firstThree) (enumerate 0 teams'))))"
      then have "snd p \<in> set (map snd (filter (\<lambda>(i, t). i \<notin> set firstThree) (enumerate 0 teams')))"
        by (rule enumerate_snd_in)
      then have "snd p \<in> set teams'"
        by (auto dest: enumerate_snd_in)
      from entry [OF this, of 1 "int (fst p) + 4"]
      show "\<exists>y. (case p of (k, t) \<Rightarrow> order_entry indexed 1 t (int k + 4)) = Inr y"
        by (simp add: case_prod_beta)
    qed
    with that show thesis by blast
  qed
  obtain second where s: "collect (map (\<lambda>(k, t). order_entry indexed 2 t (int k + 1))
      (enumerate 0 (js_sort round2_cmp teams'))) = Inr second"
  proof -
    have same: "set (js_sort round2_cmp teams') = set teams'"
      using mset_js_sort [of round2_cmp teams'] by (rule mset_eq_setD)
    have "\<exists>ys. collect (map (\<lambda>(k, t). order_entry indexed 2 t (int k + 1))
        (enumerate 0 (js_sort round2_cmp teams'))) = Inr ys"
    proof (rule collect_returns, rule ballI)
      fix p assume "p \<in> set (enumerate 0 (js_sort round2_cmp teams'))"
      then have "snd p \<in> set (js_sort round2_cmp teams')" by (rule enumerate_snd_in)
      with same have "snd p \<in> set teams'" by simp
      from entry [OF this, of 2 "int (fst p) + 1"]
      show "\<exists>y. (case p of (k, t) \<Rightarrow> order_entry indexed 2 t (int k + 1)) = Inr y"
        by (simp add: case_prod_beta)
    qed
    with that show thesis by blast
  qed
  have "genOrder shuffle draws teams lg
      = Inr \<lparr>run_league =
                lg\<lparr>draftPicks := delete_draftPicks rows (draftPicksBySeason rows (g_season lg)),
                   draftOrder := Some (winners @ others @ second)\<rparr>,
              run_chancePct = map (\<lambda>c. (c / sum_list chances) * 100) chances,
              run_firstThree = firstThree\<rparr>"
    unfolding genOrder_def Let_def upd sum.case draw prod.case
    unfolding rows_def [symmetric] indexed_def [symmetric] log w o s sum.case ..
  then show ?thesis ..
qed


text \<open>
  When the season has no picks, \<open>genPicks\<close> adds the picks of both rounds of every team from
  0 to \<open>numTeams - 1\<close>, each owned by the team itself.
\<close>

lemma genPicks_covers:
  assumes "t < numTeams" and "rnd = 1 \<or> rnd = 2"
  shows "\<exists>dp \<in> set (draftPicksBySeason (genPicks numTeams s rows) s).
      originalTid dp = int t \<and> round' dp = rnd \<and> tid dp = int t"
proof -
  have step: "\<exists>dp \<in> set (foldl (\<lambda>rows (t, r). add_draftPick rows t r s) rows trs).
      originalTid dp = a \<and> round' dp = b \<and> tid dp = a \<and> season dp = s"
    if "(a, b) \<in> set trs
        \<or> (\<exists>dp \<in> set rows. originalTid dp = a \<and> round' dp = b \<and> tid dp = a \<and> season dp = s)"
    for a b trs and rows :: "draftPick list"
    using that
  proof (induction trs arbitrary: rows)
    case Nil
    then show ?case by simp
  next
    case (Cons x trs)
    obtain c d where x: "x = (c, d)" by (cases x)
    have "(a, b) \<in> set trs
        \<or> (\<exists>dp \<in> set (add_draftPick rows c d s).
              originalTid dp = a \<and> round' dp = b \<and> tid dp = a \<and> season dp = s)"
      using Cons.prems unfolding x by (auto simp: add_draftPick_def)
    from Cons.IH [of "add_draftPick rows c d s", OF this] show ?case
      unfolding x by simp
  qed
  from assms have "(int t, rnd) \<in> set (concat (map (\<lambda>t. [(int t, 1), (int t, 2)]) [0..<numTeams]))"
    by auto
  then have "\<exists>dp \<in> set (genPicks numTeams s rows).
      originalTid dp = int t \<and> round' dp = rnd \<and> tid dp = int t \<and> season dp = s"
    unfolding genPicks_def by (intro step) simp
  then show ?thesis
    by (auto simp: draftPicksBySeason_def)
qed


subsection \<open>A run of \<open>genOrder\<close>\<close>

text \<open>
  A league of 16 teams, 14 of them outside the playoffs and two of those tied, with no
  draft picks of the season 2017 in the store and one of 2018; the shuffle reverses, and the
  draws are 100, 100 again (rejected), 300 and 999.
\<close>

lemma example_lotterySort:
  "lotterySort rev 16
      [\<lparr>tid = 0, cid = 0, winp = 60 / 82, playoffRoundsWon = 2, randVal = None\<rparr>,
       \<lparr>tid = 1, cid = 0, winp = 20 / 82, playoffRoundsWon = - 1, randVal = None\<rparr>,
       \<lparr>tid = 2, cid = 0, winp = 22 / 82, playoffRoundsWon = - 1, randVal = None\<rparr>,
       \<lparr>tid = 3, cid = 0, winp = 22 / 82, playoffRoundsWon = - 1, randVal = None\<rparr>,
       \<lparr>tid = 4, cid = 0, winp = 25 / 82, playoffRoundsWon = - 1, randVal = None\<rparr>,
       \<lparr>tid = 5, cid = 0, winp = 26 / 82, playoffRoundsWon = - 1, randVal = None\<rparr>,
       \<lparr>tid = 6, cid = 0, winp = 27 / 82, playoffRoundsWon = - 1, randVal = None\<rparr>,
       \<lparr>tid = 7, cid = 0, winp = 28 / 82, playoffRoundsWon = - 1, randVal = None\<rparr>,
       \<lparr>tid = 8, cid = 0, winp = 29 / 82, playoffRoundsWon = - 1, randVal = None\<rparr>,
       \<lparr>tid = 9, cid = 0, winp = 30 / 82, playoffRoundsWon = - 1, randVal = None\<rparr>,
       \<lparr>tid = 10, cid = 0, winp = 31 / 82, playoffRoundsWon = - 1, randVal = None\<rparr>,
       \<lparr>tid = 11, cid = 0, winp = 32 / 82, playoffRoundsWon = - 1, randVal = None\<rparr>,
       \<lparr>tid = 12, cid = 0, winp = 33 / 82, playoffRoundsWon = - 1, randVal = None\<rparr>,
       \<lparr>tid = 13, cid = 0, winp = 34 / 82, playoffRoundsWon = - 1, randVal = None\<rparr>,
       \<lparr>tid = 14, cid = 0, winp = 35 / 82, playoffRoundsWon = - 1, randVal = None\<rparr>,
       \<lparr>tid = 15, cid = 0, winp = 50 / 82, playoffRoundsWon = 0, randVal = None\<rparr>]
   = [\<lparr>tid = 1, cid = 0, winp = 20 / 82, playoffRoundsWon = - 1, randVal = Some 14\<rparr>,
       \<lparr>tid = 3, cid = 0, winp = 22 / 82, playoffRoundsWon = - 1, randVal = Some 12\<rparr>,
       \<lparr>tid = 2, cid = 0, winp = 22 / 82, playoffRoundsWon = - 1, randVal = Some 13\<rparr>,
       \<lparr>tid = 4, cid = 0, winp = 25 / 82, playoffRoundsWon = - 1, randVal = Some 11\<rparr>,
       \<lparr>tid = 5, cid = 0, winp = 26 / 82, playoffRoundsWon = - 1, randVal = Some 10\<rparr>,
       \<lparr>tid = 6, cid = 0, winp = 27 / 82, playoffRoundsWon = - 1, randVal = Some 9\<rparr>,
       \<lparr>tid = 7, cid = 0, winp = 28 / 82, playoffRoundsWon = - 1, randVal = Some 8\<rparr>,
       \<lparr>tid = 8, cid = 0, winp = 29 / 82, playoffRoundsWon = - 1, randVal = Some 7\<rparr>,
       \<lparr>tid = 9, cid = 0, winp = 30 / 82, playoffRoundsWon = - 1, randVal = Some 6\<rparr>,
       \<lparr>tid = 10, cid = 0, winp = 31 / 82, playoffRoundsWon = - 1, randVal = Some 5\<rparr>,
       \<lparr>tid = 11, cid = 0, winp = 32 / 82, playoffRoundsWon = - 1, randVal = Some 4\<rparr>,
       \<lparr>tid = 12, cid = 0, winp = 33 / 82, playoffRoundsWon = - 1, randVal = Some 3\<rparr>,
       \<lparr>tid = 13, cid = 0, winp = 34 / 82, playoffRoundsWon = - 1, randVal = Some 2\<rparr>,
       \<lparr>tid = 14, cid = 0, winp = 35 / 82, playoffRoundsWon = - 1, randVal = Some 1\<rparr>,
       \<lparr>tid = 15, cid = 0, winp = 50 / 82, playoffRoundsWon = 0, randVal = Some 0\<rparr>,
       \<lparr>tid = 0, cid = 0, winp = 60 / 82, playoffRoundsWon = 2, randVal = Some 15\<rparr>]"
  unfolding lotterySort_def Let_def
  by (simp add: enumerate_eq_zip upt_rec js_index_def js_sort_def lottery_cmp_def randVal_diff_def)

lemma example_updateChances:
  "updateChances lottery_chances
      [\<lparr>tid = 1, cid = 0, winp = 20 / 82, playoffRoundsWon = - 1, randVal = Some 14\<rparr>,
       \<lparr>tid = 3, cid = 0, winp = 22 / 82, playoffRoundsWon = - 1, randVal = Some 12\<rparr>,
       \<lparr>tid = 2, cid = 0, winp = 22 / 82, playoffRoundsWon = - 1, randVal = Some 13\<rparr>,
       \<lparr>tid = 4, cid = 0, winp = 25 / 82, playoffRoundsWon = - 1, randVal = Some 11\<rparr>,
       \<lparr>tid = 5, cid = 0, winp = 26 / 82, playoffRoundsWon = - 1, randVal = Some 10\<rparr>,
       \<lparr>tid = 6, cid = 0, winp = 27 / 82, playoffRoundsWon = - 1, randVal = Some 9\<rparr>,
       \<lparr>tid = 7, cid = 0, winp = 28 / 82, playoffRoundsWon = - 1, randVal = Some 8\<rparr>,
       \<lparr>tid = 8, cid = 0, winp = 29 / 82, playoffRoundsWon = - 1, randVal = Some 7\<rparr>,
       \<lparr>tid = 9, cid = 0, winp = 30 / 82, playoffRoundsWon = - 1, randVal = Some 6\<rparr>,
       \<lparr>tid = 10, cid = 0, winp = 31 / 82, playoffRoundsWon = - 1, randVal = Some 5\<rparr>,
       \<lparr>tid = 11, cid = 0, winp = 32 / 82, playoffRoundsWon = - 1, randVal = Some 4\<rparr>,
       \<lparr>tid = 12, cid = 0, winp = 33 / 82, playoffRoundsWon = - 1, randVal = Some 3\<rparr>,
       \<lparr>tid = 13, cid = 0, winp = 34 / 82, playoffRoundsWon = - 1, randVal = Some 2\<rparr>,
       \<lparr>tid = 14, cid = 0, winp = 35 / 82, playoffRoundsWon = - 1, randVal = Some 1\<rparr>,
       \<lparr>tid = 15, cid = 0, winp = 50 / 82, playoffRoundsWon = 0, randVal = Some 0\<rparr>,
       \<lparr>tid = 0, cid = 0, winp = 60 / 82, playoffRoundsWon = 2, randVal = Some 15\<rparr>] True
   = Inr [250, 178, 177, 119, 88, 63, 43, 28, 17, 11, 8, 7, 6, 5]"
  by (simp add: updateChances_def countBy_winp_def lottery_chances_def updateChances_group_def
      js_rem_def js_trunc_def Let_def)

lemma example_cumsum:
  "cumsum [250, 178, 177, 119, 88, 63, 43, 28, 17, 11, 8, 7, 6, 5]
   = [250, 428, 605, 724, 812, 875, 918, 946, 963, 974, 982, 989, 995, 1000]"
  by (simp add: cumsum_def numeral_eq_Suc)

lemma example_draw_firstThree:
  "draw_firstThree [250, 428, 605, 724, 812, 875, 918, 946, 963, 974, 982, 989, 995, 1000]
      [100, 100, 300, 999]
      [\<lparr>tid = 1, cid = 0, winp = 20 / 82, playoffRoundsWon = - 1, randVal = Some 14\<rparr>,
       \<lparr>tid = 3, cid = 0, winp = 22 / 82, playoffRoundsWon = - 1, randVal = Some 12\<rparr>,
       \<lparr>tid = 2, cid = 0, winp = 22 / 82, playoffRoundsWon = - 1, randVal = Some 13\<rparr>,
       \<lparr>tid = 4, cid = 0, winp = 25 / 82, playoffRoundsWon = - 1, randVal = Some 11\<rparr>,
       \<lparr>tid = 5, cid = 0, winp = 26 / 82, playoffRoundsWon = - 1, randVal = Some 10\<rparr>,
       \<lparr>tid = 6, cid = 0, winp = 27 / 82, playoffRoundsWon = - 1, randVal = Some 9\<rparr>,
       \<lparr>tid = 7, cid = 0, winp = 28 / 82, playoffRoundsWon = - 1, randVal = Some 8\<rparr>,
       \<lparr>tid = 8, cid = 0, winp = 29 / 82, playoffRoundsWon = - 1, randVal = Some 7\<rparr>,
       \<lparr>tid = 9, cid = 0, winp = 30 / 82, playoffRoundsWon = - 1, randVal = Some 6\<rparr>,
       \<lparr>tid = 10, cid = 0, winp = 31 / 82, playoffRoundsWon = - 1, randVal = Some 5\<rparr>,
       \<lparr>tid = 11, cid = 0, winp = 32 / 82, playoffRoundsWon = - 1, randVal = Some 4\<rparr>,
       \<lparr>tid = 12, cid = 0, winp = 33 / 82, playoffRoundsWon = - 1, randVal = Some 3\<rparr>,
       \<lparr>tid = 13, cid = 0, winp = 34 / 82, playoffRoundsWon = - 1, randVal = Some 2\<rparr>,
       \<lparr>tid = 14, cid = 0, winp = 35 / 82, playoffRoundsWon = - 1, randVal = Some 1\<rparr>,
       \<lparr>tid = 15, cid = 0, winp = 50 / 82, playoffRoundsWon = 0, randVal = Some 0\<rparr>,
       \<lparr>tid = 0, cid = 0, winp = 60 / 82, playoffRoundsWon = 2, randVal = Some 15\<rparr>] []
   = Inr ([\<lparr>tid = 1, cid = 0, winp = 20 / 82, playoffRoundsWon = - 1, randVal = Some (- 16)\<rparr>,
       \<lparr>tid = 3, cid = 0, winp = 22 / 82, playoffRoundsWon = - 1, randVal = Some (- 18)\<rparr>,
       \<lparr>tid = 2, cid = 0, winp = 22 / 82, playoffRoundsWon = - 1, randVal = Some 13\<rparr>,
       \<lparr>tid = 4, cid = 0, winp = 25 / 82, playoffRoundsWon = - 1, randVal = Some 11\<rparr>,
       \<lparr>tid = 5, cid = 0, winp = 26 / 82, playoffRoundsWon = - 1, randVal = Some 10\<rparr>,
       \<lparr>tid = 6, cid = 0, winp = 27 / 82, playoffRoundsWon = - 1, randVal = Some 9\<rparr>,
       \<lparr>tid = 7, cid = 0, winp = 28 / 82, playoffRoundsWon = - 1, randVal = Some 8\<rparr>,
       \<lparr>tid = 8, cid = 0, winp = 29 / 82, playoffRoundsWon = - 1, randVal = Some 7\<rparr>,
       \<lparr>tid = 9, cid = 0, winp = 30 / 82, playoffRoundsWon = - 1, randVal = Some 6\<rparr>,
       \<lparr>tid = 10, cid = 0, winp = 31 / 82, playoffRoundsWon = - 1, randVal = Some 5\<rparr>,
       \<lparr>tid = 11, cid = 0, winp = 32 / 82, playoffRoundsWon = - 1, randVal = Some 4\<rparr>,
       \<lparr>tid = 12, cid = 0, winp = 33 / 82, playoffRoundsWon = - 1, randVal = Some 3\<rparr>,
       \<lparr>tid = 13, cid = 0, winp = 34 / 82, playoffRoundsWon = - 1, randVal = Some 2\<rparr>,
       \<lparr>tid = 14, cid = 0, winp = 35 / 82, playoffRoundsWon = - 1, randVal = Some (- 29)\<rparr>,
       \<lparr>tid = 15, cid = 0, winp = 50 / 82, playoffRoundsWon = 0, randVal = Some 0\<rparr>,
       \<lparr>tid = 0, cid = 0, winp = 60 / 82, playoffRoundsWon = 2, randVal = Some 15\<rparr>],
      [0, 1, 13])"
  by simp

lemma example_genOrder:
  "\<exists>r. genOrder rev [100, 100, 300, 999]
      [\<lparr>tid = 0, cid = 0, winp = 60 / 82, playoffRoundsWon = 2, randVal = None\<rparr>,
       \<lparr>tid = 1, cid = 0, winp = 20 / 82, playoffRoundsWon = - 1, randVal = None\<rparr>,
       \<lparr>tid = 2, cid = 0, winp = 22 / 82, playoffRoundsWon = - 1, randVal = None\<rparr>,
       \<lparr>tid = 3, cid = 0, winp = 22 / 82, playoffRoundsWon = - 1, randVal = None\<rparr>,
       \<lparr>tid = 4, cid = 0, winp = 25 / 82, playoffRoundsWon = - 1, randVal = None\<rparr>,
       \<lparr>tid = 5, cid = 0, winp = 26 / 82, playoffRoundsWon = - 1, randVal = None\<rparr>,
       \<lparr>tid = 6, cid = 0, winp = 27 / 82, playoffRoundsWon = - 1, randVal = None\<rparr>,
       \<lparr>tid = 7, cid = 0, winp = 28 / 82, playoffRoundsWon = - 1, randVal = None\<rparr>,
       \<lparr>tid = 8, cid = 0, winp = 29 / 82, playoffRoundsWon = - 1, randVal = None\<rparr>,
       \<lparr>tid = 9, cid = 0, winp = 30 / 82, playoffRoundsWon = - 1, randVal = None\<rparr>,
       \<lparr>tid = 10, cid = 0, winp = 31 / 82, playoffRoundsWon = - 1, randVal = None\<rparr>,
       \<lparr>tid = 11, cid = 0, winp = 32 / 82, playoffRoundsWon = - 1, randVal = None\<rparr>,
       \<lparr>tid = 12, cid = 0, winp = 33 / 82, playoffRoundsWon = - 1, randVal = None\<rparr>,
       \<lparr>tid = 13, cid = 0, winp = 34 / 82, playoffRoundsWon = - 1, randVal = None\<rparr>,
       \<lparr>tid = 14, cid = 0, winp = 35 / 82, playoffRoundsWon = - 1, randVal = None\<rparr>,
       \<lparr>tid = 15, cid = 0, winp = 50 / 82, playoffRoundsWon = 0, randVal = None\<rparr>]
      \<lparr>g_numTeams = 16, g_season = 2017, g_phase = Some 5, g_nextPhase = None,
       g_userTids = [0], g_autoPlaySeasons = 0, g_minContract = 500, g_maxContract = 20000,
       draftPicks = [\<lparr>tid = 3, originalTid = 4, round' = 1, season = 2018, dpid = 7\<rparr>],
       players = [], draftOrder = None\<rparr> = Inr r
     \<and> map (\<lambda>e. (round' e, pick e, tid e, originalTid e)) (the (draftOrder (run_league r)))
         = [(1, 1, 1, 1), (1, 2, 3, 3), (1, 3, 14, 14), (1, 4, 2, 2), (1, 5, 4, 4), (1, 6, 5, 5), (1, 7, 6, 6), (1, 8, 7, 7), (1, 9, 8, 8), (1, 10, 9, 9), (1, 11, 10, 10), (1, 12, 11, 11), (1, 13, 12, 12), (1, 14, 13, 13), (1, 15, 15, 15), (1, 16, 0, 0), (2, 1, 1, 1), (2, 2, 2, 2), (2, 3, 3, 3), (2, 4, 4, 4), (2, 5, 5, 5), (2, 6, 6, 6), (2, 7, 7, 7), (2, 8, 8, 8), (2, 9, 9, 9), (2, 10, 10, 10), (2, 11, 11, 11), (2, 12, 12, 12), (2, 13, 13, 13), (2, 14, 14, 14), (2, 15, 15, 15), (2, 16, 0, 0)]
     \<and> draftPicks (run_league r) = [\<lparr>tid = 3, originalTid = 4, round' = 1, season = 2018, dpid = 7\<rparr>]
     \<and> run_firstThree r = [0, 1, 13]"
proof -
  let ?run = "genOrder rev [100, 100, 300, 999]
      [\<lparr>tid = 0, cid = 0, winp = 60 / 82, playoffRoundsWon = 2, randVal = None\<rparr>,
       \<lparr>tid = 1, cid = 0, winp = 20 / 82, playoffRoundsWon = - 1, randVal = None\<rparr>,
       \<lparr>tid = 2, cid = 0, winp = 22 / 82, playoffRoundsWon = - 1, randVal = None\<rparr>,
       \<lparr>tid = 3, cid = 0, winp = 22 / 82, playoffRoundsWon = - 1, randVal = None\<rparr>,
       \<lparr>tid = 4, cid = 0, winp = 25 / 82, playoffRoundsWon = - 1, randVal = None\<rparr>,
       \<lparr>tid = 5, cid = 0, winp = 26 / 82, playoffRoundsWon = - 1, randVal = None\<rparr>,
       \<lparr>tid = 6, cid = 0, winp = 27 / 82, playoffRoundsWon = - 1, randVal = None\<rparr>,
       \<lparr>tid = 7, cid = 0, winp = 28 / 82, playoffRoundsWon = - 1, randVal = None\<rparr>,
       \<lparr>tid = 8, cid = 0, winp = 29 / 82, playoffRoundsWon = - 1, randVal = None\<rparr>,
       \<lparr>tid = 9, cid = 0, winp = 30 / 82, playoffRoundsWon = - 1, randVal = None\<rparr>,
       \<lparr>tid = 10, cid = 0, winp = 31 / 82, playoffRoundsWon = - 1, randVal = None\<rparr>,
       \<lparr>tid = 11, cid = 0, winp = 32 / 82, playoffRoundsWon = - 1, randVal = None\<rparr>,
       \<lparr>tid = 12, cid = 0, winp = 33 / 82, playoffRoundsWon = - 1, randVal = None\<rparr>,
       \<lparr>tid = 13, cid = 0, winp = 34 / 82, playoffRoundsWon = - 1, randVal = None\<rparr>,
       \<lparr>tid = 14, cid = 0, winp = 35 / 82, playoffRoundsWon = - 1, randVal = None\<rparr>,
       \<lparr>tid = 15, cid = 0, winp = 50 / 82, playoffRoundsWon = 0, randVal = None\<rparr>]
      \<lparr>g_numTeams = 16, g_season = 2017, g_phase = Some 5, g_nextPhase = None,
       g_userTids = [0], g_autoPlaySeasons = 0, g_minContract = 500, g_maxContract = 20000,
       draftPicks = [\<lparr>tid = 3, originalTid = 4, round' = 1, season = 2018, dpid = 7\<rparr>],
       players = [], draftOrder = None\<rparr>"
  have "map_sum id (\<lambda>r. (map (\<lambda>e. (round' e, pick e, tid e, originalTid e)) (the (draftOrder (run_league r))),
        draftPicks (run_league r), run_firstThree r)) ?run
      = Inr ([(1, 1, 1, 1), (1, 2, 3, 3), (1, 3, 14, 14), (1, 4, 2, 2), (1, 5, 4, 4), (1, 6, 5, 5), (1, 7, 6, 6), (1, 8, 7, 7), (1, 9, 8, 8), (1, 10, 9, 9), (1, 11, 10, 10), (1, 12, 11, 11), (1, 13, 12, 12), (1, 14, 13, 13), (1, 15, 15, 15), (1, 16, 0, 0), (2, 1, 1, 1), (2, 2, 2, 2), (2, 3, 3, 3), (2, 4, 4, 4), (2, 5, 5, 5), (2, 6, 6, 6), (2, 7, 7, 7), (2, 8, 8, 8), (2, 9, 9, 9), (2, 10, 10, 10), (2, 11, 11, 11), (2, 12, 12, 12), (2, 13, 13, 13), (2, 14, 14, 14), (2, 15, 15, 15), (2, 16, 0, 0)],
          [\<lparr>tid = 3, originalTid = 4, round' = 1, season = 2018, dpid = 7\<rparr>], [0, 1, 13])"
    unfolding genOrder_def Let_def
    apply (simp only: league.select_convs example_lotterySort example_updateChances example_cumsum
        example_draw_firstThree sum.case prod.case)
    apply (simp add: draftPicksBySeason_def genPicks_def add_draftPick_def draftPicksIndexed_def
        logLotteryChances_def order_entry_def enumerate_eq_zip upt_rec js_sort_def round2_cmp_def
        randVal_diff_def delete_draftPicks_def)
    done
  then show ?thesis
    by (cases ?run) simp_all
qed

theorem genOrder_rounds_witness:
  "\<exists>r. genOrder rev [100, 100, 300, 999]
      [\<lparr>tid = 0, cid = 0, winp = 60 / 82, playoffRoundsWon = 2, randVal = None\<rparr>,
       \<lparr>tid = 1, cid = 0, winp = 20 / 82, playoffRoundsWon = - 1, randVal = None\<rparr>,
       \<lparr>tid = 2, cid = 0, winp = 22 / 82, playoffRoundsWon = - 1, randVal = None\<rparr>,
       \<lparr>tid = 3, cid = 0, winp = 22 / 82, playoffRoundsWon = - 1, randVal = None\<rparr>,
       \<lparr>tid = 4, cid = 0, winp = 25 / 82, playoffRoundsWon = - 1, randVal = None\<rparr>,
       \<lparr>tid = 5, cid = 0, winp = 26 / 82, playoffRoundsWon = - 1, randVal = None\<rparr>,
       \<lparr>tid = 6, cid = 0, winp = 27 / 82, playoffRoundsWon = - 1, randVal = None\<rparr>,
       \<lparr>tid = 7, cid = 0, winp = 28 / 82, playoffRoundsWon = - 1, randVal = None\<rparr>,
       \<lparr>tid = 8, cid = 0, winp = 29 / 82, playoffRoundsWon = - 1, randVal = None\<rparr>,
       \<lparr>tid = 9, cid = 0, winp = 30 / 82, playoffRoundsWon = - 1, randVal = None\<rparr>,
       \<lparr>tid = 10, cid = 0, winp = 31 / 82, playoffRoundsWon = - 1, randVal = None\<rparr>,
       \<lparr>tid = 11, cid = 0, winp = 32 / 82, playoffRoundsWon = - 1, randVal = None\<rparr>,
       \<lparr>tid = 12, cid = 0, winp = 33 / 82, playoffRoundsWon = - 1, randVal = None\<rparr>,
       \<lparr>tid = 13, cid = 0, winp = 34 / 82, playoffRoundsWon = - 1, randVal = None\<rparr>,
       \<lparr>tid = 14, cid = 0, winp = 35 / 82, playoffRoundsWon = - 1, randVal = None\<rparr>,
       \<lparr>tid = 15, cid = 0, winp = 50 / 82, playoffRoundsWon = 0, randVal = None\<rparr>]
      \<lparr>g_numTeams = 16, g_season = 2017, g_phase = Some 5, g_nextPhase = None,
       g_userTids = [0], g_autoPlaySeasons = 0, g_minContract = 500, g_maxContract = 20000,
       draftPicks = [\<lparr>tid = 3, originalTid = 4, round' = 1, season = 2018, dpid = 7\<rparr>],
       players = [], draftOrder = None\<rparr> = Inr r
     \<and> map originalTid (filter (\<lambda>e. round' e = 1) (the (draftOrder (run_league r))))
         = [1, 3, 14, 2, 4, 5, 6, 7, 8, 9, 10, 11, 12, 13, 15, 0]
     \<and> mset (map originalTid (filter (\<lambda>e. round' e = 1) (the (draftOrder (run_league r)))))
         = mset [0, 1, 2, 3, 4, 5, 6, 7, 8, 9, 10, 11, 12, 13, 14, 15]
     \<and> mset (map originalTid (filter (\<lambda>e. round' e = 2) (the (draftOrder (run_league r)))))
         = mset [0, 1, 2, 3, 4, 5, 6, 7, 8, 9, 10, 11, 12, 13, 14, 15]
     \<and> draftPicks (run_league r) = [\<lparr>tid = 3, originalTid = 4, round' = 1, season = 2018, dpid = 7\<rparr>]
     \<and> draftPicksBySeason (draftPicks (run_league r)) 2017 = []"
proof -
  let ?teams = "[\<lparr>tid = 0, cid = 0, winp = 60 / 82, playoffRoundsWon = 2, randVal = None\<rparr>,
       \<lparr>tid = 1, cid = 0, winp = 20 / 82, playoffRoundsWon = - 1, randVal = None\<rparr>,
       \<lparr>tid = 2, cid = 0, winp = 22 / 82, playoffRoundsWon = - 1, randVal = None\<rparr>,
       \<lparr>tid = 3, cid = 0, winp = 22 / 82, playoffRoundsWon = - 1, randVal = None\<rparr>,
       \<lparr>tid = 4, cid = 0, winp = 25 / 82, playoffRoundsWon = - 1, randVal = None\<rparr>,
       \<lparr>tid = 5, cid = 0, winp = 26 / 82, playoffRoundsWon = - 1, randVal = None\<rparr>,
       \<lparr>tid = 6, cid = 0, winp = 27 / 82, playoffRoundsWon = - 1, randVal = None\<rparr>,
       \<lparr>tid = 7, cid = 0, winp = 28 / 82, playoffRoundsWon = - 1, randVal = None\<rparr>,
       \<lparr>tid = 8, cid = 0, winp = 29 / 82, playoffRoundsWon = - 1, randVal = None\<rparr>,
       \<lparr>tid = 9, cid = 0, winp = 30 / 82, playoffRoundsWon = - 1, randVal = None\<rparr>,
       \<lparr>tid = 10, cid = 0, winp = 31 / 82, playoffRoundsWon = - 1, randVal = None\<rparr>,
       \<lparr>tid = 11, cid = 0, winp = 32 / 82, playoffRoundsWon = - 1, randVal = None\<rparr>,
       \<lparr>tid = 12, cid = 0, winp = 33 / 82, playoffRoundsWon = - 1, randVal = None\<rparr>,
       \<lparr>tid = 13, cid = 0, winp = 34 / 82, playoffRoundsWon = - 1, randVal = None\<rparr>,
       \<lparr>tid = 14, cid = 0, winp = 35 / 82, playoffRoundsWon = - 1, randVal = None\<rparr>,
       \<lparr>tid = 15, cid = 0, winp = 50 / 82, playoffRoundsWon = 0, randVal = None\<rparr>]"
  let ?lg = "\<lparr>g_numTeams = 16, g_season = 2017, g_phase = Some 5, g_nextPhase = None,
       g_userTids = [0], g_autoPlaySeasons = 0, g_minContract = 500, g_maxContract = 20000,
       draftPicks = [\<lparr>tid = 3, originalTid = 4, round' = 1, season = 2018, dpid = 7\<rparr>],
       players = [], draftOrder = None\<rparr>"
  from example_genOrder obtain r where all: "genOrder rev [100, 100, 300, 999] ?teams ?lg = Inr r
     \<and> map (\<lambda>e. (round' e, pick e, tid e, originalTid e)) (the (draftOrder (run_league r)))
         = [(1, 1, 1, 1), (1, 2, 3, 3), (1, 3, 14, 14), (1, 4, 2, 2), (1, 5, 4, 4), (1, 6, 5, 5), (1, 7, 6, 6), (1, 8, 7, 7), (1, 9, 8, 8), (1, 10, 9, 9), (1, 11, 10, 10), (1, 12, 11, 11), (1, 13, 12, 12), (1, 14, 13, 13), (1, 15, 15, 15), (1, 16, 0, 0), (2, 1, 1, 1), (2, 2, 2, 2), (2, 3, 3, 3), (2, 4, 4, 4), (2, 5, 5, 5), (2, 6, 6, 6), (2, 7, 7, 7), (2, 8, 8, 8), (2, 9, 9, 9), (2, 10, 10, 10), (2, 11, 11, 11), (2, 12, 12, 12), (2, 13, 13, 13), (2, 14, 14, 14), (2, 15, 15, 15), (2, 16, 0, 0)]
     \<and> draftPicks (run_league r) = [\<lparr>tid = 3, originalTid = 4, round' = 1, season = 2018, dpid = 7\<rparr>]
     \<and> run_firstThree r = [0, 1, 13]" ..
  note run = all [THEN conjunct1]
  note order = all [THEN conjunct2, THEN conjunct1]
  note picks = all [THEN conjunct2, THEN conjunct2, THEN conjunct1]
  from genOrder_rounds [of rev "[100, 100, 300, 999]" ?teams ?lg r, THEN mp, OF run]
  obtain ord where ord: "draftOrder (run_league r) = Some ord"
    and m1: "mset (map originalTid (filter (\<lambda>e. round' e = 1) ord)) = mset (map tid ?teams)"
    and m2: "mset (map originalTid (filter (\<lambda>e. round' e = 2) ord)) = mset (map tid ?teams)"
    and gone: "draftPicksBySeason (draftPicks (run_league r)) (g_season ?lg) = []"
    by blast
  have "map originalTid (filter (\<lambda>e. round' e = 1) ord)
      = map (\<lambda>(rd, pk, t, ot). ot) (filter (\<lambda>(rd, pk, t, ot). rd = 1)
          (map (\<lambda>e. (round' e, pick e, tid e, originalTid e)) ord))"
    by (simp only: filter_map map_map o_def prod.case)
  also have "\<dots> = [1, 3, 14, 2, 4, 5, 6, 7, 8, 9, 10, 11, 12, 13, 15, 0]"
    unfolding order [unfolded ord option.sel] by simp
  finally have first: "map originalTid (filter (\<lambda>e. round' e = 1) ord)
      = [1, 3, 14, 2, 4, 5, 6, 7, 8, 9, 10, 11, 12, 13, 15, 0]" .
  have tids: "map tid ?teams = [0, 1, 2, 3, 4, 5, 6, 7, 8, 9, 10, 11, 12, 13, 14, 15]"
    by simp
  have sel: "the (draftOrder (run_league r)) = ord"
    unfolding ord by simp
  have season: "g_season ?lg = 2017"
    by simp
  note a = first [folded sel]
  note b = m1 [unfolded tids, folded sel]
  note c = m2 [unfolded tids, folded sel]
  note d = gone [unfolded season]
  show ?thesis
    by (rule exI [of _ r]) (rule conjI run a b c picks d)+
qed

theorem genOrder_lottery_witness:
  "\<exists>r. genOrder rev [100, 100, 300, 999]
      [\<lparr>tid = 0, cid = 0, winp = 60 / 82, playoffRoundsWon = 2, randVal = None\<rparr>,
       \<lparr>tid = 1, cid = 0, winp = 20 / 82, playoffRoundsWon = - 1, randVal = None\<rparr>,
       \<lparr>tid = 2, cid = 0, winp = 22 / 82, playoffRoundsWon = - 1, randVal = None\<rparr>,
       \<lparr>tid = 3, cid = 0, winp = 22 / 82, playoffRoundsWon = - 1, randVal = None\<rparr>,
       \<lparr>tid = 4, cid = 0, winp = 25 / 82, playoffRoundsWon = - 1, randVal = None\<rparr>,
       \<lparr>tid = 5, cid = 0, winp = 26 / 82, playoffRoundsWon = - 1, randVal = None\<rparr>,
       \<lparr>tid = 6, cid = 0, winp = 27 / 82, playoffRoundsWon = - 1, randVal = None\<rparr>,
       \<lparr>tid = 7, cid = 0, winp = 28 / 82, playoffRoundsWon = - 1, randVal = None\<rparr>,
       \<lparr>tid = 8, cid = 0, winp = 29 / 82, playoffRoundsWon = - 1, randVal = None\<rparr>,
       \<lparr>tid = 9, cid = 0, winp = 30 / 82, playoffRoundsWon = - 1, randVal = None\<rparr>,
       \<lparr>tid = 10, cid = 0, winp = 31 / 82, playoffRoundsWon = - 1, randVal = None\<rparr>,
       \<lparr>tid = 11, cid = 0, winp = 32 / 82, playoffRoundsWon = - 1, randVal = None\<rparr>,
       \<lparr>tid = 12, cid = 0, winp = 33 / 82, playoffRoundsWon = - 1, randVal = None\<rparr>,
       \<lparr>tid = 13, cid = 0, winp = 34 / 82, playoffRoundsWon = - 1, randVal = None\<rparr>,
       \<lparr>tid = 14, cid = 0, winp = 35 / 82, playoffRoundsWon = - 1, randVal = None\<rparr>,
       \<lparr>tid = 15, cid = 0, winp = 50 / 82, playoffRoundsWon = 0, randVal = None\<rparr>]
      \<lparr>g_numTeams = 16, g_season = 2017, g_phase = Some 5, g_nextPhase = None,
       g_userTids = [0], g_autoPlaySeasons = 0, g_minContract = 500, g_maxContract = 20000,
       draftPicks = [\<lparr>tid = 3, originalTid = 4, round' = 1, season = 2018, dpid = 7\<rparr>],
       players = [], draftOrder = None\<rparr> = Inr r
     \<and> run_firstThree r = [0, 1, 13]
     \<and> distinct (run_firstThree r)
     \<and> length (run_chancePct r) = 14
     \<and> sum_list (run_chancePct r) = 100"
proof -
  let ?teams = "[\<lparr>tid = 0, cid = 0, winp = 60 / 82, playoffRoundsWon = 2, randVal = None\<rparr>,
       \<lparr>tid = 1, cid = 0, winp = 20 / 82, playoffRoundsWon = - 1, randVal = None\<rparr>,
       \<lparr>tid = 2, cid = 0, winp = 22 / 82, playoffRoundsWon = - 1, randVal = None\<rparr>,
       \<lparr>tid = 3, cid = 0, winp = 22 / 82, playoffRoundsWon = - 1, randVal = None\<rparr>,
       \<lparr>tid = 4, cid = 0, winp = 25 / 82, playoffRoundsWon = - 1, randVal = None\<rparr>,
       \<lparr>tid = 5, cid = 0, winp = 26 / 82, playoffRoundsWon = - 1, randVal = None\<rparr>,
       \<lparr>tid = 6, cid = 0, winp = 27 / 82, playoffRoundsWon = - 1, randVal = None\<rparr>,
       \<lparr>tid = 7, cid = 0, winp = 28 / 82, playoffRoundsWon = - 1, randVal = None\<rparr>,
       \<lparr>tid = 8, cid = 0, winp = 29 / 82, playoffRoundsWon = - 1, randVal = None\<rparr>,
       \<lparr>tid = 9, cid = 0, winp = 30 / 82, playoffRoundsWon = - 1, randVal = None\<rparr>,
       \<lparr>tid = 10, cid = 0, winp = 31 / 82, playoffRoundsWon = - 1, randVal = None\<rparr>,
       \<lparr>tid = 11, cid = 0, winp = 32 / 82, playoffRoundsWon = - 1, randVal = None\<rparr>,
       \<lparr>tid = 12, cid = 0, winp = 33 / 82, playoffRoundsWon = - 1, randVal = None\<rparr>,
       \<lparr>tid = 13, cid = 0, winp = 34 / 82, playoffRoundsWon = - 1, randVal = None\<rparr>,
       \<lparr>tid = 14, cid = 0, winp = 35 / 82, playoffRoundsWon = - 1, randVal = None\<rparr>,
       \<lparr>tid = 15, cid = 0, winp = 50 / 82, playoffRoundsWon = 0, randVal = None\<rparr>]"
  let ?lg = "\<lparr>g_numTeams = 16, g_season = 2017, g_phase = Some 5, g_nextPhase = None,
       g_userTids = [0], g_autoPlaySeasons = 0, g_minContract = 500, g_maxContract = 20000,
       draftPicks = [\<lparr>tid = 3, originalTid = 4, round' = 1, season = 2018, dpid = 7\<rparr>],
       players = [], draftOrder = None\<rparr>"
  from example_genOrder obtain r where all: "genOrder rev [100, 100, 300, 999] ?teams ?lg = Inr r
     \<and> map (\<lambda>e. (round' e, pick e, tid e, originalTid e)) (the (draftOrder (run_league r)))
         = [(1, 1, 1, 1), (1, 2, 3, 3), (1, 3, 14, 14), (1, 4, 2, 2), (1, 5, 4, 4), (1, 6, 5, 5), (1, 7, 6, 6), (1, 8, 7, 7), (1, 9, 8, 8), (1, 10, 9, 9), (1, 11, 10, 10), (1, 12, 11, 11), (1, 13, 12, 12), (1, 14, 13, 13), (1, 15, 15, 15), (1, 16, 0, 0), (2, 1, 1, 1), (2, 2, 2, 2), (2, 3, 3, 3), (2, 4, 4, 4), (2, 5, 5, 5), (2, 6, 6, 6), (2, 7, 7, 7), (2, 8, 8, 8), (2, 9, 9, 9), (2, 10, 10, 10), (2, 11, 11, 11), (2, 12, 12, 12), (2, 13, 13, 13), (2, 14, 14, 14), (2, 15, 15, 15), (2, 16, 0, 0)]
     \<and> draftPicks (run_league r) = [\<lparr>tid = 3, originalTid = 4, round' = 1, season = 2018, dpid = 7\<rparr>]
     \<and> run_firstThree r = [0, 1, 13]" ..
  note run = all [THEN conjunct1]
  note three = all [THEN conjunct2, THEN conjunct2, THEN conjunct2]
  note inst = genOrder_lottery [of rev "[100, 100, 300, 999]" ?teams ?lg r, THEN mp, OF run]
  note p1 = inst [THEN conjunct2, THEN conjunct1]
  note p2 = inst [THEN conjunct2, THEN conjunct2, THEN conjunct2, THEN conjunct1]
  note p3 = inst [THEN conjunct2, THEN conjunct2, THEN conjunct2, THEN conjunct2]
  show ?thesis
    by (rule exI [of _ r]) (rule conjI run three p1 p2 p3)+
qed

end
